theory Spec2Isabelle
  imports
    Main
    "HOL-Library.Sublist"
    "HOL-Library.Char_ord"
    "HOL-Library.List_Lexorder"
begin

section \<open>Strings and paths\<close>

text \<open>
  A Python \<open>str\<close> is modelled by the list of its UTF-8 bytes (an Isabelle \<open>string\<close>).
  UTF-8 is self-synchronising, so the substring test \<open>key in name\<close>, \<open>str.replace\<close>,
  concatenation and the code-point order of \<open>sorted\<close> agree with the same operations
  on byte lists. The substring test \<open>old in s\<close> is \<^const>\<open>sublist\<close>.

  A \<open>pathlib.Path\<close> is modelled by the list of its components below the anchor.
\<close>

type_synonym path = "string list"

text \<open>\<open>Path.name\<close>: the final component, the empty string when there is none.\<close>

definition name_of :: "path \<Rightarrow> string" where
  "name_of p = (if p = [] then [] else last p)"

text \<open>\<open>Path.parent\<close>: the path without its final component.\<close>

definition parent :: "path \<Rightarrow> path" where
  "parent p = butlast p"

text \<open>\<open>str.join\<close>.\<close>

fun join :: "string \<Rightarrow> string list \<Rightarrow> string" where
  "join sep [] = []"
| "join sep [x] = x"
| "join sep (x # y # ys) = x @ sep @ join sep (y # ys)"

text \<open>\<open>str(path)\<close> of a relative path (POSIX flavour): the components joined by a slash,
  a single dot for the empty path.\<close>

definition str_rel :: "path \<Rightarrow> string" where
  "str_rel p = (if p = [] then ''.'' else join ''/'' p)"

text \<open>\<open>str(path)\<close> of an absolute path.\<close>

definition str_abs :: "path \<Rightarrow> string" where
  "str_abs p = ''/'' @ join ''/'' p"

datatype error = ValueError | ReadError

text \<open>\<open>Path.relative_to\<close>: raises \<open>ValueError\<close> when the path is not below the other.\<close>

definition relative_to :: "path \<Rightarrow> path \<Rightarrow> error + path" where
  "relative_to p root = (if prefix root p then Inr (drop (length root) p) else Inl ValueError)"


section \<open>The documentation generator (generate_data_code_section.py)\<close>

subsection \<open>Scanning\<close>

text \<open>
  The directory tree below the root is given by the list of the relative paths of its
  entries. \<open>root.rglob(pattern)\<close> yields \<open>root / rel\<close> for every entry whose final
  component matches the pattern; \<open>sorted\<close> orders paths by their components.
\<close>

text \<open>The pattern \<open>*.tsv\<close>.\<close>

definition match_tsv :: "string \<Rightarrow> bool" where
  "match_tsv n = suffix ''.tsv'' n"

text \<open>The pattern \<open>Fig*.pdf\<close>.\<close>

definition match_fig_pdf :: "string \<Rightarrow> bool" where
  "match_fig_pdf n = (prefix ''Fig'' n \<and> suffix ''.pdf'' (drop 3 n))"

definition rglob :: "(string \<Rightarrow> bool) \<Rightarrow> path \<Rightarrow> path list \<Rightarrow> path list" where
  "rglob pat root tree = map (\<lambda>rel. root @ rel) (filter (\<lambda>rel. pat (name_of rel)) tree)"

definition get_tsv_files :: "path \<Rightarrow> path list \<Rightarrow> path list" where
  "get_tsv_files root tree = sort (rglob match_tsv root tree)"

definition get_pdf_figures :: "path \<Rightarrow> path list \<Rightarrow> path list" where
  "get_pdf_figures root tree = sort (rglob match_fig_pdf root tree)"

subsection \<open>Describing a table\<close>

text \<open>The dictionary of \<open>describe_table\<close>, in insertion order (the order of iteration).\<close>

definition descriptions :: "(string \<times> string) list" where
  "descriptions =
    [(''Fig1_InfoArchitecture'',
        ''Reduced informational coordinates and cluster assignments (Fig. 1).''),
     (''Fig2_Separation'',
        ''State separation metrics and pairwise distances (Fig. 2).''),
     (''Fig3_VulnerabilityCurves'',
        ''Vulnerability curves across perturbation fractions (Fig. 3).''),
     (''Fig4_VulnerabilitySummary'',
        ''Summary vulnerability metrics by state and donor (Fig. 4).''),
     (''ED2_TDA'',
        ''Topological Data Analysis persistence summaries (Extended Data 2).''),
     (''ED_Supplementary'',
        ''Additional supplementary data tables.'')]"

text \<open>The loop over the items of the dictionary, with the fallback after the loop.\<close>

fun lookup_desc :: "(string \<times> string) list \<Rightarrow> string \<Rightarrow> string" where
  "lookup_desc [] name = ''Processed analysis table.''"
| "lookup_desc ((key, desc) # rest) name =
     (if sublist key name then desc else lookup_desc rest name)"

definition describe_table :: "path \<Rightarrow> string" where
  "describe_table filepath = lookup_desc descriptions (name_of filepath)"

subsection \<open>The two sections\<close>

text \<open>The en dash of the table lines, as UTF-8.\<close>

definition en_dash :: string where
  "en_dash = [CHR 0xE2, CHR 0x80, CHR 0x93]"

definition table_line :: "path \<Rightarrow> string \<Rightarrow> string" where
  "table_line rel desc = ''- `'' @ str_rel rel @ ''` '' @ en_dash @ '' '' @ desc"

text \<open>The loop of \<open>generate_tables_section\<close>: entries whose parent directory is named
  \<open>metadata\<close> are skipped.\<close>

fun table_lines :: "path \<Rightarrow> path list \<Rightarrow> error + string list" where
  "table_lines root [] = Inr []"
| "table_lines root (filepath # rest) =
     (if name_of (parent filepath) = ''metadata'' then table_lines root rest
      else (case relative_to filepath root of
              Inl e \<Rightarrow> Inl e
            | Inr rel \<Rightarrow>
               (case table_lines root rest of
                  Inl e \<Rightarrow> Inl e
                | Inr ls \<Rightarrow> Inr (table_line rel (describe_table filepath) # ls))))"

definition generate_tables_section :: "path \<Rightarrow> path list \<Rightarrow> error + string" where
  "generate_tables_section root tree =
     (let tsv_files = get_tsv_files root tree in
      if tsv_files = [] then
        Inr ''*No processed data files found. Tables will be added as analysis progresses.*''
      else (case table_lines root tsv_files of
              Inl e \<Rightarrow> Inl e
            | Inr ls \<Rightarrow>
                Inr (if ls \<noteq> [] then join [CHR 0x0A] ls
                     else ''*No processed data files found.*'')))"

fun figure_lines :: "path \<Rightarrow> path list \<Rightarrow> error + string list" where
  "figure_lines root [] = Inr []"
| "figure_lines root (filepath # rest) =
     (case relative_to filepath root of
        Inl e \<Rightarrow> Inl e
      | Inr rel \<Rightarrow>
         (case figure_lines root rest of
            Inl e \<Rightarrow> Inl e
          | Inr ls \<Rightarrow> Inr ((''- `'' @ str_rel rel @ ''`'') # ls)))"

definition generate_figures_section :: "path \<Rightarrow> path list \<Rightarrow> error + string" where
  "generate_figures_section root tree =
     (let pdf_files = get_pdf_figures root tree in
      if pdf_files = [] then
        Inr ''*Figure PDFs will be added upon completion of analysis.*''
      else (case figure_lines root pdf_files of
              Inl e \<Rightarrow> Inl e
            | Inr ls \<Rightarrow>
                Inr (if ls \<noteq> [] then join [CHR 0x0A] ls
                     else ''*No figure PDFs found.*'')))"

subsection \<open>Updating the README\<close>

text \<open>
  \<open>str.replace(old, new)\<close>: the text is scanned from the left; at a position where
  \<open>old\<close> starts, \<open>new\<close> is emitted and the scan resumes behind that occurrence.
  For the empty \<open>old\<close>, \<open>new\<close> is inserted before every character and at the end.
\<close>

fun replace_ne :: "char \<Rightarrow> string \<Rightarrow> string \<Rightarrow> string \<Rightarrow> string" where
  "replace_ne h t new [] = []"
| "replace_ne h t new (c # cs) =
     (if prefix (h # t) (c # cs) then new @ replace_ne h t new (drop (length t) cs)
      else c # replace_ne h t new cs)"

definition replace :: "string \<Rightarrow> string \<Rightarrow> string \<Rightarrow> string" where
  "replace old new s =
     (case old of
        [] \<Rightarrow> new @ concat (map (\<lambda>c. c # new) s)
      | h # t \<Rightarrow> replace_ne h t new s)"

text \<open>The number of substitutions that the scan of \<open>str.replace\<close> performs.\<close>

fun substitutions_ne :: "char \<Rightarrow> string \<Rightarrow> string \<Rightarrow> nat" where
  "substitutions_ne h t [] = 0"
| "substitutions_ne h t (c # cs) =
     (if prefix (h # t) (c # cs) then Suc (substitutions_ne h t (drop (length t) cs))
      else substitutions_ne h t cs)"

definition substitutions :: "string \<Rightarrow> string \<Rightarrow> nat" where
  "substitutions old s =
     (case old of [] \<Rightarrow> Suc (length s) | h # t \<Rightarrow> substitutions_ne h t s)"

text \<open>
  \<open>read_text\<close> opens the file in text mode with universal newlines: \<open>\r\n\<close> and a
  lone \<open>\r\<close> are read as \<open>\n\<close>. \<open>write_text\<close> writes every \<open>\n\<close> as the line
  separator of the platform (\<open>\n\<close> on POSIX).
\<close>

definition LF :: char where "LF = CHR 0x0A"
definition CR :: char where "CR = CHR 0x0D"

fun universal_newlines :: "string \<Rightarrow> string" where
  "universal_newlines [] = []"
| "universal_newlines [c] = [if c = CR then LF else c]"
| "universal_newlines (c # d # ds) =
     (if c = CR \<and> d = LF then LF # universal_newlines ds
      else if c = CR then LF # universal_newlines (d # ds)
      else c # universal_newlines (d # ds))"

definition write_newlines :: "string \<Rightarrow> string \<Rightarrow> string" where
  "write_newlines linesep s = concat (map (\<lambda>c. if c = LF then linesep else [c]) s)"

definition posix_linesep :: string where
  "posix_linesep = [LF]"

definition tables_marker :: string where
  "tables_marker = ''<!-- TABLES_AUTO -->''"

definition figs_marker :: string where
  "figs_marker = ''<!-- FIGS_AUTO -->''"

text \<open>
  The file \<open>root / "README.md"\<close>: absent, present but not readable as UTF-8 text
  (\<open>read_text\<close> raises), or present with the given bytes.
\<close>

datatype readme = Absent | Unreadable | Text string

datatype out = Stdout string | Stderr string

text \<open>The check mark of the progress messages, as UTF-8.\<close>

definition check_mark :: string where
  "check_mark = [CHR 0xE2, CHR 0x9C, CHR 0x93]"

text \<open>
  The outcome of \<open>update_readme\<close>: the file afterwards, the text handed to
  \<open>write_text\<close> (\<open>None\<close> when \<open>write_text\<close> is not called), the lines printed and
  the exception raised, if any.
\<close>

record update_result =
  file_after :: readme
  wrote :: "string option"
  printed :: "out list"
  raised :: "error option"

text \<open>Lines 99 to 105: the two independent marker tests and replacements.\<close>

definition replace_markers :: "string \<Rightarrow> string \<Rightarrow> string \<Rightarrow> string \<times> out list" where
  "replace_markers tables_block figs_block text =
     (let (text1, out1) =
            (if sublist tables_marker text
             then (replace tables_marker tables_block text,
                   [Stdout (check_mark @ '' Updated processed data tables section'')])
             else (text, []));
          (text2, out2) =
            (if sublist figs_marker text1
             then (replace figs_marker figs_block text1,
                   [Stdout (check_mark @ '' Updated figures section'')])
             else (text1, []))
      in (text2, out1 @ out2))"

definition update_readme ::
  "path \<Rightarrow> string \<Rightarrow> readme \<Rightarrow> string \<Rightarrow> string \<Rightarrow> update_result" where
  "update_readme root linesep file tables_block figs_block =
     (case file of
        Absent \<Rightarrow>
          \<lparr>file_after = Absent, wrote = None,
           printed = [Stderr (''Warning: README.md not found at ''
                              @ str_abs (root @ [''README.md'']))],
           raised = None\<rparr>
      | Unreadable \<Rightarrow>
          \<lparr>file_after = Unreadable, wrote = None, printed = [], raised = Some ReadError\<rparr>
      | Text bytes \<Rightarrow>
          (let (text, msgs) =
                 replace_markers tables_block figs_block (universal_newlines bytes)
           in \<lparr>file_after = Text (write_newlines linesep text), wrote = Some text,
               printed = msgs @ [Stdout (check_mark @ '' README.md updated successfully'')],
               raised = None\<rparr>))"

section \<open>The archive publisher (upload_to_zenodo.py)\<close>

subsection \<open>The world outside the script\<close>

text \<open>
  A remote endpoint answers a request with a response, or the \<open>requests\<close> library
  raises (connection error, timeout). Of a response the script reads the status code
  (through \<open>raise_for_status\<close>), the raw content, and the decoded JSON object; of that
  object it reads the keys \<open>assets\<close>, \<open>id\<close>, \<open>metadata\<close> (and \<open>doi\<close> inside it) and
  \<open>record_id\<close>. A key that is absent is \<open>None\<close>. JSON scalars are kept as the text
  that an f-string renders.
\<close>

record asset =
  asset_name :: "string option"
  browser_download_url :: "string option"

record json_obj =
  assets :: "asset list option"
  dep_id :: "string option"
  metadata :: "string option option"
  record_id :: "string option"

datatype body = NotJson | Json json_obj

record response =
  status_code :: nat
  content :: string
  body :: body

datatype reply = NoReply | Reply response

text \<open>The metadata file named on the command line: missing, present but not loadable
  (\<open>json.load\<close> or \<open>open\<close> raises), or loaded.\<close>

datatype metadata_file = Missing | Unloadable | Loaded string

text \<open>The parsed command line.\<close>

record args =
  repo_owner :: string
  repo_name :: string
  tag :: string
  sandbox :: bool
  metadata_path :: string
  skip_download :: bool

text \<open>
  The environment of one run: the value of \<open>ZENODO_TOKEN\<close>, the metadata file, the
  entries of the directory \<open>releases\<close> (\<open>None\<close> when it does not exist), which files can
  be opened for reading, the answer to the n-th remote call of the run, and the clock.
\<close>

record world =
  env_token :: "string option"
  metadata_state :: metadata_file
  releases_dir :: "string list option"
  can_open :: "string \<Rightarrow> bool"
  responses :: "nat \<Rightarrow> reply"
  now_iso :: string

subsection \<open>Effects\<close>

text \<open>The remote calls of the pipeline, named after the step that issues them.\<close>

datatype call = ReleaseLookup | AssetDownload | CreateDeposition | UploadFile | PublishDeposition

datatype exn =
    HTTPError nat
  | RequestException
  | JSONDecodeError
  | KeyError string
  | OSError string

text \<open>The record written to \<open>zenodo_release.json\<close>.\<close>

record release_info =
  info_timestamp :: string
  info_deposition_id :: string
  info_record_id :: string
  info_doi :: "string option"
  info_url :: string
  info_tag :: string

text \<open>
  What a run does, in order: remote requests (with their URL), files written below
  \<open>releases\<close>, the summary file, lines printed on standard output, and the report of the
  exception handler (the message and the traceback on standard error).
\<close>

datatype event =
    Request call string
  | Mkdir string
  | WriteFile string string
  | WriteSummary release_info
  | Print string
  | ErrorReport exn

fun is_request :: "event \<Rightarrow> bool" where
  "is_request (Request c u) = True"
| "is_request e = False"

definition n_requests :: "event list \<Rightarrow> nat" where
  "n_requests tr = length (filter is_request tr)"

text \<open>
  A computation extends the trace of events and returns a value, raises an exception,
  or raises \<open>SystemExit\<close> (\<open>sys.exit\<close>), which \<open>except Exception\<close> does not catch.
\<close>

datatype abort = Raised exn | SysExit int

type_synonym 'a prog = "event list \<Rightarrow> (abort + 'a) \<times> event list"

definition ret :: "'a \<Rightarrow> 'a prog" where
  "ret x = (\<lambda>tr. (Inr x, tr))"

definition raise :: "exn \<Rightarrow> 'a prog" where
  "raise e = (\<lambda>tr. (Inl (Raised e), tr))"

definition sys_exit :: "int \<Rightarrow> 'a prog" where
  "sys_exit n = (\<lambda>tr. (Inl (SysExit n), tr))"

definition emit :: "event \<Rightarrow> unit prog" where
  "emit e = (\<lambda>tr. (Inr (), tr @ [e]))"

definition bind :: "'a prog \<Rightarrow> ('a \<Rightarrow> 'b prog) \<Rightarrow> 'b prog" where
  "bind m f = (\<lambda>tr. case m tr of (Inl a, tr') \<Rightarrow> (Inl a, tr') | (Inr x, tr') \<Rightarrow> f x tr')"

text \<open>\<open>requests.get\<close> / \<open>requests.post\<close>: the n-th request of the run gets the n-th answer.\<close>

definition request :: "world \<Rightarrow> call \<Rightarrow> string \<Rightarrow> response prog" where
  "request w c url = (\<lambda>tr.
     case responses w (n_requests tr) of
       NoReply \<Rightarrow> (Inl (Raised RequestException), tr @ [Request c url])
     | Reply r \<Rightarrow> (Inr r, tr @ [Request c url]))"

text \<open>\<open>response.raise_for_status()\<close>: raises for the status codes 400 to 599.\<close>

definition raise_for_status :: "response \<Rightarrow> unit prog" where
  "raise_for_status r =
     (if 400 \<le> status_code r \<and> status_code r < 600 then raise (HTTPError (status_code r))
      else ret ())"

text \<open>\<open>response.json()\<close>.\<close>

definition json_of :: "response \<Rightarrow> json_obj prog" where
  "json_of r = (case body r of NotJson \<Rightarrow> raise JSONDecodeError | Json j \<Rightarrow> ret j)"

text \<open>Subscripting a dictionary: \<open>KeyError\<close> when the key is absent.\<close>

definition get_key :: "string \<Rightarrow> 'a option \<Rightarrow> 'a prog" where
  "get_key k v = (case v of None \<Rightarrow> raise (KeyError k) | Some x \<Rightarrow> ret x)"

text \<open>\<open>open(file_path, 'rb')\<close>.\<close>

definition open_rb :: "world \<Rightarrow> string \<Rightarrow> unit prog" where
  "open_rb w p = (if can_open w p then ret () else raise (OSError p))"

text \<open>\<open>Path(p).name\<close> of a path given as text: what follows the last slash.\<close>

definition basename :: "string \<Rightarrow> string" where
  "basename p = rev (takeWhile (\<lambda>c. c \<noteq> CHR ''/'') (rev p))"

definition str_opt :: "string option \<Rightarrow> string" where
  "str_opt v = (case v of None \<Rightarrow> ''None'' | Some s \<Rightarrow> s)"

subsection \<open>ZenodoUploader\<close>

definition ZENODO_SANDBOX :: string where
  "ZENODO_SANDBOX = ''https://sandbox.zenodo.org/api''"

definition ZENODO_PROD :: string where
  "ZENODO_PROD = ''https://zenodo.org/api''"

record uploader =
  token :: string
  base_url :: string

definition init_uploader :: "string \<Rightarrow> bool \<Rightarrow> uploader prog" where
  "init_uploader tok use_sandbox =
     bind (emit (Print (check_mark @ '' Zenodo uploader initialized (''
                        @ (if use_sandbox then ''sandbox'' else ''production'') @ '')'')))
       (\<lambda>_. ret \<lparr>token = tok,
                  base_url = (if use_sandbox then ZENODO_SANDBOX else ZENODO_PROD)\<rparr>)"

definition create_deposition :: "world \<Rightarrow> uploader \<Rightarrow> string \<Rightarrow> json_obj prog" where
  "create_deposition w self meta =
     bind (request w CreateDeposition (base_url self @ ''/deposit/depositions'')) (\<lambda>response.
     bind (raise_for_status response) (\<lambda>_.
     bind (json_of response) (\<lambda>deposition.
     bind (get_key ''id'' (dep_id deposition)) (\<lambda>i.
     bind (emit (Print (check_mark @ '' Deposition created: '' @ i))) (\<lambda>_.
     ret deposition)))))"

definition upload_file :: "world \<Rightarrow> uploader \<Rightarrow> string \<Rightarrow> string \<Rightarrow> json_obj prog" where
  "upload_file w self deposition_id file_path =
     bind (open_rb w file_path) (\<lambda>_.
     bind (request w UploadFile
             (base_url self @ ''/deposit/depositions/'' @ deposition_id @ ''/files''))
       (\<lambda>response.
     bind (raise_for_status response) (\<lambda>_.
     bind (json_of response) (\<lambda>file_info.
     bind (emit (Print (check_mark @ '' Uploaded: '' @ basename file_path))) (\<lambda>_.
     ret file_info)))))"

definition publish_deposition :: "world \<Rightarrow> uploader \<Rightarrow> string \<Rightarrow> json_obj prog" where
  "publish_deposition w self deposition_id =
     bind (request w PublishDeposition
             (base_url self @ ''/deposit/depositions/'' @ deposition_id @ ''/actions/publish''))
       (\<lambda>response.
     bind (raise_for_status response) (\<lambda>_.
     bind (json_of response) (\<lambda>deposition.
     bind (get_key ''metadata'' (metadata deposition)) (\<lambda>md.
     bind (emit (Print (check_mark @ '' Published! DOI: ''
                        @ (case md of None \<Rightarrow> ''pending'' | Some d \<Rightarrow> d)))) (\<lambda>_.
     ret deposition)))))"

text \<open>The loop of \<open>download_release\<close> over the assets of the release.\<close>

fun download_assets :: "world \<Rightarrow> asset list \<Rightarrow> string list \<Rightarrow> string list prog" where
  "download_assets w [] files = ret files"
| "download_assets w (a # rest) files =
     bind (get_key ''browser_download_url'' (browser_download_url a)) (\<lambda>download_url.
     bind (get_key ''name'' (asset_name a)) (\<lambda>nm.
     bind (emit (Print (''Downloading '' @ nm @ ''...''))) (\<lambda>_.
     bind (request w AssetDownload download_url) (\<lambda>response.
     bind (raise_for_status response) (\<lambda>_.
     bind (emit (WriteFile (''releases/'' @ nm) (content response))) (\<lambda>_.
     bind (emit (Print (check_mark @ '' Downloaded: '' @ nm))) (\<lambda>_.
     download_assets w rest (files @ [''releases/'' @ nm]))))))))"

definition download_release ::
  "world \<Rightarrow> string \<Rightarrow> string \<Rightarrow> string \<Rightarrow> string list prog" where
  "download_release w owner repo tg =
     bind (emit (Mkdir ''releases'')) (\<lambda>_.
     bind (request w ReleaseLookup
             (''https://api.github.com/repos/'' @ owner @ ''/'' @ repo
              @ ''/releases/tags/'' @ tg)) (\<lambda>response.
     bind (raise_for_status response) (\<lambda>_.
     bind (json_of response) (\<lambda>release.
     download_assets w (case assets release of None \<Rightarrow> [] | Some xs \<Rightarrow> xs) []))))"

subsection \<open>main\<close>

text \<open>\<open>load_zenodo_metadata\<close>, after the test that the file exists.\<close>

definition load_zenodo_metadata :: "world \<Rightarrow> string \<Rightarrow> string prog" where
  "load_zenodo_metadata w path =
     (case metadata_state w of
        Loaded m \<Rightarrow> ret m
      | _ \<Rightarrow> raise (OSError path))"

text \<open>Lines 213 to 234: the metadata, the uploader and the list of files.\<close>

definition collect_files :: "args \<Rightarrow> world \<Rightarrow> uploader \<Rightarrow> string list prog" where
  "collect_files a w self =
     (if \<not> skip_download a then
        bind (emit (Print ([LF] @ ''Downloading release '' @ tag a @ ''...''))) (\<lambda>_.
        download_release w (repo_owner a) (repo_name a) (tag a))
      else
        ret (case releases_dir w of
               None \<Rightarrow> []
             | Some entries \<Rightarrow> map (\<lambda>n. ''releases/'' @ n) entries))"

definition prepare :: "args \<Rightarrow> world \<Rightarrow> string \<Rightarrow> (string \<times> uploader \<times> string list) prog" where
  "prepare a w tok =
     bind (if metadata_state w = Missing then
             bind (emit (Print (''Error: '' @ metadata_path a @ '' not found''))) (\<lambda>_.
             sys_exit 1)
           else ret ()) (\<lambda>_.
     bind (load_zenodo_metadata w (metadata_path a)) (\<lambda>meta.
     bind (emit (Print (check_mark @ '' Loaded metadata from '' @ metadata_path a))) (\<lambda>_.
     bind (init_uploader tok (sandbox a)) (\<lambda>self.
     bind (collect_files a w self) (\<lambda>files.
     bind (if files = [] then
             bind (emit (Print ''No files to upload'')) (\<lambda>_. sys_exit 1)
           else ret ()) (\<lambda>_.
     ret (meta, self, files)))))))"

text \<open>The loop over the files to upload.\<close>

fun upload_all :: "world \<Rightarrow> uploader \<Rightarrow> string \<Rightarrow> string list \<Rightarrow> unit prog" where
  "upload_all w self deposition_id [] = ret ()"
| "upload_all w self deposition_id (file_path # rest) =
     bind (upload_file w self deposition_id file_path) (\<lambda>_.
     upload_all w self deposition_id rest)"

text \<open>Lines 236 to 244: the deposition is created and the files are attached.\<close>

definition deposit :: "world \<Rightarrow> uploader \<Rightarrow> string \<Rightarrow> string list \<Rightarrow> string prog" where
  "deposit w self meta files =
     bind (emit (Print ([LF] @ ''Creating Zenodo deposition...''))) (\<lambda>_.
     bind (create_deposition w self meta) (\<lambda>deposition.
     bind (get_key ''id'' (dep_id deposition)) (\<lambda>deposition_id.
     bind (emit (Print ([LF] @ ''Uploading files...''))) (\<lambda>_.
     bind (upload_all w self deposition_id files) (\<lambda>_.
     ret deposition_id)))))"

definition rule70 :: string where
  "rule70 = replicate 70 (CHR ''='')"

definition record_url :: "string \<Rightarrow> string" where
  "record_url rid = ''https://zenodo.org/record/'' @ rid"

text \<open>Lines 250 to 277: what follows the publication.\<close>

definition save_info :: "args \<Rightarrow> world \<Rightarrow> string \<Rightarrow> json_obj \<Rightarrow> unit prog" where
  "save_info a w deposition_id published =
     bind (get_key ''metadata'' (metadata published)) (\<lambda>doi.
     bind (get_key ''record_id'' (record_id published)) (\<lambda>rid.
     bind (emit (Print ([LF] @ rule70))) (\<lambda>_.
     bind (emit (Print ''SUCCESS! Zenodo record created and published'')) (\<lambda>_.
     bind (emit (Print rule70)) (\<lambda>_.
     bind (emit (Print (''Record ID: '' @ rid))) (\<lambda>_.
     bind (emit (Print (''DOI: '' @ str_opt doi))) (\<lambda>_.
     bind (emit (Print (''URL: '' @ record_url rid))) (\<lambda>_.
     bind (emit (Print (rule70 @ [LF]))) (\<lambda>_.
     bind (emit (WriteSummary
             \<lparr>info_timestamp = now_iso w, info_deposition_id = deposition_id,
              info_record_id = rid, info_doi = doi, info_url = record_url rid,
              info_tag = tag a\<rparr>)) (\<lambda>_.
     emit (Print (check_mark @ '' Release info saved to zenodo_release.json''))))))))))))"

text \<open>Lines 246 to 277.\<close>

definition publish_and_save ::
  "args \<Rightarrow> world \<Rightarrow> uploader \<Rightarrow> string \<Rightarrow> unit prog" where
  "publish_and_save a w self deposition_id =
     bind (emit (Print ([LF] @ ''Publishing deposition...''))) (\<lambda>_.
     bind (publish_deposition w self deposition_id) (\<lambda>published.
     save_info a w deposition_id published))"

text \<open>The body of the \<open>try\<close> block of \<open>main\<close>.\<close>

definition main_try :: "args \<Rightarrow> world \<Rightarrow> string \<Rightarrow> unit prog" where
  "main_try a w tok =
     bind (prepare a w tok) (\<lambda>(meta, self, files).
     bind (deposit w self meta files) (\<lambda>deposition_id.
     publish_and_save a w self deposition_id))"

text \<open>
  \<open>main\<close> returns 0 or 1, or leaves through \<open>sys.exit(1)\<close>; the script ends with
  \<open>sys.exit(main())\<close>, so the exit status of the process is that number in both cases.
  The command line is taken as parsed (argparse itself exits with status 2 on a usage
  error).
\<close>

datatype outcome = Returned int | Exited int

record run =
  events :: "event list"
  outcome :: outcome

definition no_token :: run where
  "no_token =
     \<lparr>events = [Print ''Error: ZENODO_TOKEN environment variable not set'',
                Print ''Get token from: https://zenodo.org/account/settings/applications/''],
      outcome = Exited 1\<rparr>"

definition main :: "args \<Rightarrow> world \<Rightarrow> run" where
  "main a w =
     (case env_token w of
        None \<Rightarrow> no_token
      | Some tok \<Rightarrow>
          if tok = [] then no_token
          else (case main_try a w tok [] of
                  (Inr u, tr) \<Rightarrow> \<lparr>events = tr, outcome = Returned 0\<rparr>
                | (Inl (Raised e), tr) \<Rightarrow>
                    \<lparr>events = tr @ [ErrorReport e], outcome = Returned 1\<rparr>
                | (Inl (SysExit n), tr) \<Rightarrow> \<lparr>events = tr, outcome = Exited n\<rparr>))"

definition exit_status :: "run \<Rightarrow> int" where
  "exit_status r = (case outcome r of Returned n \<Rightarrow> n | Exited n \<Rightarrow> n)"

subsection \<open>Properties of computations\<close>

text \<open>A computation only appends events, and all of them lie in the given set.\<close>

definition emits_only :: "event set \<Rightarrow> 'a prog \<Rightarrow> bool" where
  "emits_only E m \<longleftrightarrow> (\<forall>tr. \<exists>ext. snd (m tr) = tr @ ext \<and> set ext \<subseteq> E)"

text \<open>Every value that a computation returns satisfies the given predicate.\<close>

definition returns :: "('a \<Rightarrow> bool) \<Rightarrow> 'a prog \<Rightarrow> bool" where
  "returns R m \<longleftrightarrow> (\<forall>tr x. fst (m tr) = Inr x \<longrightarrow> R x)"

text \<open>A computation leaves through \<open>sys.exit\<close> with status 1 only.\<close>

definition exits_one :: "'a prog \<Rightarrow> bool" where
  "exits_one m \<longleftrightarrow> (\<forall>tr n. fst (m tr) = Inl (SysExit n) \<longrightarrow> n = 1)"

text \<open>An answer that makes the calling step raise: no answer at all, or a status code
  that \<open>raise_for_status\<close> rejects.\<close>

definition fails :: "reply \<Rightarrow> bool" where
  "fails r = (case r of NoReply \<Rightarrow> True
              | Reply x \<Rightarrow> 400 \<le> status_code x \<and> status_code x < 600)"

text \<open>A request that gets a failing answer is the last event of the computation, which
  then raises.\<close>

definition fail_stop :: "world \<Rightarrow> 'a prog \<Rightarrow> bool" where
  "fail_stop w m \<longleftrightarrow>
     (\<forall>tr. \<exists>ext. snd (m tr) = tr @ ext \<and>
        (\<forall>pre c u post. ext = pre @ Request c u # post
            \<and> fails (responses w (n_requests (tr @ pre)))
            \<longrightarrow> post = [] \<and> (\<exists>e. fst (m tr) = Inl (Raised e))))"

text \<open>The events of the three parts of the \<open>try\<close> block.\<close>

definition prepare_events :: "event set" where
  "prepare_events =
     {e. case e of
           Request c u \<Rightarrow> c = ReleaseLookup \<or> c = AssetDownload
         | WriteSummary i \<Rightarrow> False
         | ErrorReport x \<Rightarrow> False
         | _ \<Rightarrow> True}"

definition deposit_events :: "string \<Rightarrow> event set" where
  "deposit_events base =
     {e. case e of
           Request c u \<Rightarrow> (c = CreateDeposition \<or> c = UploadFile) \<and> prefix base u
         | Print s \<Rightarrow> True
         | _ \<Rightarrow> False}"

definition quiet_events :: "event set" where
  "quiet_events =
     {e. case e of
           Print s \<Rightarrow> True
         | WriteSummary i \<Rightarrow> info_url i = record_url (info_record_id i)
         | _ \<Rightarrow> False}"

definition publish_events :: "string \<Rightarrow> event set" where
  "publish_events base =
     {e. case e of
           Request c u \<Rightarrow> c = PublishDeposition \<and> prefix base u
         | Print s \<Rightarrow> True
         | WriteSummary i \<Rightarrow> info_url i = record_url (info_record_id i)
         | _ \<Rightarrow> False}"

text \<open>The actions that stay on the local machine after the publication: printing,
  writing the summary file, and the report of the exception handler.\<close>

fun is_local :: "event \<Rightarrow> bool" where
  "is_local (Print s) = True"
| "is_local (WriteSummary i) = True"
| "is_local (ErrorReport x) = True"
| "is_local e = False"

text \<open>What follows \<open>prepare\<close> in the \<open>try\<close> block.\<close>

definition after_prepare :: "args \<Rightarrow> world \<Rightarrow> uploader \<Rightarrow> string \<Rightarrow> string list \<Rightarrow> unit prog" where
  "after_prepare a w self meta files =
     bind (deposit w self meta files) (\<lambda>d. publish_and_save a w self d)"

subsection \<open>Example runs\<close>

definition json_empty :: json_obj where
  "json_empty = \<lparr>assets = None, dep_id = None, metadata = None, record_id = None\<rparr>"

definition ok_reply :: "json_obj \<Rightarrow> reply" where
  "ok_reply j = Reply \<lparr>status_code = 200, content = ''DATA'', body = Json j\<rparr>"

definition not_found :: reply where
  "not_found = Reply \<lparr>status_code = 404, content = [], body = NotJson\<rparr>"

text \<open>A release with one asset; every call succeeds.\<close>

definition good_responses :: "nat \<Rightarrow> reply" where
  "good_responses n =
     (if n = 0 then
        ok_reply (json_empty\<lparr>assets :=
          Some [\<lparr>asset_name = Some ''a.zip'',
                 browser_download_url = Some ''https://example.org/a.zip''\<rparr>]\<rparr>)
      else if n = 1 then ok_reply json_empty
      else if n = 2 then ok_reply (json_empty\<lparr>dep_id := Some ''42''\<rparr>)
      else if n = 3 then ok_reply json_empty
      else ok_reply (json_empty\<lparr>metadata := Some (Some ''10.5281/zenodo.7''),
                                  record_id := Some ''7''\<rparr>))"

definition good_world :: world where
  "good_world =
     \<lparr>env_token = Some ''secret'', metadata_state = Loaded ''{}'', releases_dir = None,
      can_open = (\<lambda>p. True), responses = good_responses,
      now_iso = ''2024-01-01T00:00:00''\<rparr>"

definition example_args :: args where
  "example_args =
     \<lparr>repo_owner = ''owner'', repo_name = ''repo'', tag = ''v1.0.0'', sandbox = True,
      metadata_path = ''.zenodo.json'', skip_download = False\<rparr>"

text \<open>The same run, but the download of the asset is answered with status 404.\<close>

definition bad_download_world :: world where
  "bad_download_world =
     good_world\<lparr>responses := (\<lambda>n. if n = 1 then not_found else good_responses n)\<rparr>"

section \<open>Properties of the documentation generator\<close>

subsection \<open>Table descriptions\<close>

lemma lookup_desc_first:
  "i < length tbl \<Longrightarrow> sublist (fst (tbl ! i)) name \<Longrightarrow>
   (\<forall>j<i. \<not> sublist (fst (tbl ! j)) name) \<Longrightarrow> lookup_desc tbl name = snd (tbl ! i)"
proof (induction tbl name arbitrary: i rule: lookup_desc.induct)
  case (1 name)
  then show ?case by simp
next
  case (2 key desc rest name)
  show ?case
  proof (cases i)
    case 0
    with 2 show ?thesis by simp
  next
    case (Suc k)
    from 2(4) Suc have nk: "\<not> sublist key name" by fastforce
    have "\<forall>j<k. \<not> sublist (fst (rest ! j)) name"
      using 2(4) Suc by fastforce
    with 2 Suc nk show ?thesis by simp
  qed
qed

lemma lookup_desc_none:
  "(\<forall>kd\<in>set tbl. \<not> sublist (fst kd) name)
   \<Longrightarrow> lookup_desc tbl name = ''Processed analysis table.''"
  by (induction tbl name rule: lookup_desc.induct) auto

text \<open>
  C6. \<open>describe_table\<close> returns the description mapped to the first key of the table
  (in the order of the dictionary) that occurs as a substring of the file's name, and the
  fallback \<open>Processed analysis table.\<close> when no key occurs in the name.
\<close>

theorem describe_table_first_match:
  "(\<forall>i<length descriptions.
      sublist (fst (descriptions ! i)) (name_of filepath) \<and>
      (\<forall>j<i. \<not> sublist (fst (descriptions ! j)) (name_of filepath))
      \<longrightarrow> describe_table filepath = snd (descriptions ! i))
   \<and> ((\<forall>kd\<in>set descriptions. \<not> sublist (fst kd) (name_of filepath))
      \<longrightarrow> describe_table filepath = ''Processed analysis table.'')"
  unfolding describe_table_def
  using lookup_desc_first lookup_desc_none by blast

theorem describe_table_first_match_witness:
  "describe_table [''results'', ''Fig2_Separation_metrics.tsv'']
     = ''State separation metrics and pairwise distances (Fig. 2).''
   \<and> describe_table [''notes.tsv''] = ''Processed analysis table.''"
proof -
  let ?p = "[''results'', ''Fig2_Separation_metrics.tsv'']"
  have a: "(1::nat) < length descriptions" by (simp add: descriptions_def)
  have b: "sublist (fst (descriptions ! 1)) (name_of ?p)"
    by (simp add: descriptions_def name_of_def sublist_Cons_right)
  have c: "\<forall>j<(1::nat). \<not> sublist (fst (descriptions ! j)) (name_of ?p)"
    by (simp add: descriptions_def name_of_def sublist_Cons_right)
  have d: "\<forall>kd\<in>set descriptions. \<not> sublist (fst kd) (name_of [''notes.tsv''])"
    by (simp add: descriptions_def name_of_def sublist_Cons_right)
  have "describe_table ?p = snd (descriptions ! 1)"
    using describe_table_first_match [of ?p] a b c by blast
  moreover have "describe_table [''notes.tsv''] = ''Processed analysis table.''"
    using describe_table_first_match [of "[''notes.tsv'']"] d by blast
  ultimately show ?thesis by (simp add: descriptions_def)
qed

subsection \<open>Sections without files\<close>

lemma sort_eq_Nil_iff: "sort xs = [] \<longleftrightarrow> xs = []"
  by (metis length_0_conv length_sort)

lemma rglob_Nil_iff: "rglob pat root tree = [] \<longleftrightarrow> (\<forall>rel\<in>set tree. \<not> pat (name_of rel))"
  by (simp add: rglob_def filter_empty_conv)

lemma table_lines_all_skipped:
  "(\<forall>fp\<in>set fps. name_of (parent fp) = ''metadata'') \<Longrightarrow> table_lines root fps = Inr []"
  by (induction fps) simp_all

text \<open>
  C7. When the tree below the root has no entry matching \<open>*.tsv\<close>, the tables section
  is the placeholder about missing processed data; when every such entry lies in a
  directory named \<open>metadata\<close>, it is one of the two placeholders of that section; when
  no entry matches \<open>Fig*.pdf\<close>, the figures section is its placeholder. In each case the
  result is a value (no exception) and not the empty string.
\<close>

theorem no_files_placeholder:
  "((\<forall>rel\<in>set tree. \<not> match_tsv (name_of rel)) \<longrightarrow>
      generate_tables_section root tree =
        Inr ''*No processed data files found. Tables will be added as analysis progresses.*'')
   \<and> ((\<forall>rel\<in>set tree. match_tsv (name_of rel) \<longrightarrow> name_of (parent (root @ rel)) = ''metadata'')
      \<longrightarrow> (\<exists>s. generate_tables_section root tree = Inr s \<and> s \<noteq> [] \<and>
            (s = ''*No processed data files found. Tables will be added as analysis progresses.*''
             \<or> s = ''*No processed data files found.*'')))
   \<and> ((\<forall>rel\<in>set tree. \<not> match_fig_pdf (name_of rel)) \<longrightarrow>
      generate_figures_section root tree =
        Inr ''*Figure PDFs will be added upon completion of analysis.*'')"
proof (intro conjI impI)
  assume "\<forall>rel\<in>set tree. \<not> match_tsv (name_of rel)"
  then have "get_tsv_files root tree = []"
    by (simp add: get_tsv_files_def sort_eq_Nil_iff rglob_Nil_iff)
  then show "generate_tables_section root tree =
        Inr ''*No processed data files found. Tables will be added as analysis progresses.*''"
    by (simp add: generate_tables_section_def)
next
  assume a: "\<forall>rel\<in>set tree. match_tsv (name_of rel) \<longrightarrow>
               name_of (parent (root @ rel)) = ''metadata''"
  have "\<forall>fp\<in>set (get_tsv_files root tree). name_of (parent fp) = ''metadata''"
    using a by (auto simp: get_tsv_files_def rglob_def)
  then have "table_lines root (get_tsv_files root tree) = Inr []"
    by (rule table_lines_all_skipped)
  then show "\<exists>s. generate_tables_section root tree = Inr s \<and> s \<noteq> [] \<and>
            (s = ''*No processed data files found. Tables will be added as analysis progresses.*''
             \<or> s = ''*No processed data files found.*'')"
    by (simp add: generate_tables_section_def Let_def)
next
  assume "\<forall>rel\<in>set tree. \<not> match_fig_pdf (name_of rel)"
  then have "get_pdf_figures root tree = []"
    by (simp add: get_pdf_figures_def sort_eq_Nil_iff rglob_Nil_iff)
  then show "generate_figures_section root tree =
        Inr ''*Figure PDFs will be added upon completion of analysis.*''"
    by (simp add: generate_figures_section_def)
qed

theorem no_files_placeholder_witness:
  "generate_tables_section [''repo''] [[''README.md''], [''docs'', ''notes.txt'']] =
     Inr ''*No processed data files found. Tables will be added as analysis progresses.*''
   \<and> generate_tables_section [''repo''] [[''metadata'', ''samples.tsv'']] \<in>
     {Inr ''*No processed data files found. Tables will be added as analysis progresses.*'',
      Inr ''*No processed data files found.*''}
   \<and> generate_figures_section [''repo''] [[''README.md''], [''docs'', ''notes.txt'']] =
     Inr ''*Figure PDFs will be added upon completion of analysis.*''"
proof -
  let ?tree = "[[''README.md''], [''docs'', ''notes.txt'']]"
  let ?meta = "[[''metadata'', ''samples.tsv'']]"
  have a: "\<forall>rel\<in>set ?tree. \<not> match_tsv (name_of rel)"
    by (simp add: match_tsv_def name_of_def suffix_to_prefix)
  have b: "\<forall>rel\<in>set ?meta. match_tsv (name_of rel) \<longrightarrow>
             name_of (parent ([''repo''] @ rel)) = ''metadata''"
    by (simp add: name_of_def parent_def)
  have c: "\<forall>rel\<in>set ?tree. \<not> match_fig_pdf (name_of rel)"
    by (simp add: match_fig_pdf_def name_of_def)
  from no_files_placeholder [of ?tree "[''repo'']"] a c
  have 1: "generate_tables_section [''repo''] ?tree =
     Inr ''*No processed data files found. Tables will be added as analysis progresses.*''"
    and 3: "generate_figures_section [''repo''] ?tree =
     Inr ''*Figure PDFs will be added upon completion of analysis.*''"
    by blast+
  from no_files_placeholder [of ?meta "[''repo'']"] b
  have 2: "generate_tables_section [''repo''] ?meta \<in>
     {Inr ''*No processed data files found. Tables will be added as analysis progresses.*'',
      Inr ''*No processed data files found.*''}"
    by blast
  from 1 2 3 show ?thesis by blast
qed

subsection \<open>Replacing the markers\<close>

lemma replace_ne_absent: "\<not> sublist (h # t) s \<Longrightarrow> replace_ne h t new s = s"
  by (induction h t new s rule: replace_ne.induct) (auto simp: sublist_Cons_right)

lemma replace_absent: "old \<noteq> [] \<Longrightarrow> \<not> sublist old s \<Longrightarrow> replace old new s = s"
  by (cases old) (simp_all add: replace_def replace_ne_absent)

lemma prefix_marker_inside:
  assumes "prefix (h # t) (x # a @ h # w)" and "h \<notin> set t"
  shows "prefix (h # t) (x # a)"
proof -
  from assms(1) have xh: "x = h" and p: "prefix t (a @ h # w)" by auto
  from p consider "prefix t a" | us where "t = a @ us" "prefix us (h # w)"
    by (auto simp: prefix_append)
  then show ?thesis
  proof cases
    case 1
    with xh show ?thesis by simp
  next
    case 2
    show ?thesis
    proof (cases us)
      case Nil
      with 2 xh show ?thesis by simp
    next
      case (Cons u us')
      with 2 have "u = h" by simp
      with 2 Cons assms(2) show ?thesis by simp
    qed
  qed
qed

lemma replace_ne_first:
  assumes "h \<notin> set t" and "\<not> sublist (h # t) a"
  shows "replace_ne h t new (a @ (h # t) @ r) = a @ new @ replace_ne h t new r"
  using assms(2)
proof (induction a)
  case Nil
  show ?case by simp
next
  case (Cons x a)
  have "\<not> prefix (h # t) (x # a @ h # t @ r)"
  proof
    assume "prefix (h # t) (x # a @ h # t @ r)"
    from prefix_marker_inside [OF this assms(1)] have "prefix (h # t) (x # a)" .
    then have "sublist (h # t) (x # a)" by (rule prefix_imp_sublist)
    with Cons.prems show False by simp
  qed
  moreover from Cons.prems have "\<not> sublist (h # t) a"
    by (simp add: sublist_Cons_right)
  ultimately show ?case using Cons.IH by auto
qed

lemma sublist_skip_free:
  "h \<notin> set f \<Longrightarrow> sublist (h # t) (f @ w) \<longleftrightarrow> sublist (h # t) w"
  by (induction f) (auto simp: sublist_Cons_right)

lemma sublist_before_head:
  assumes "h \<notin> set t"
  shows "sublist (h # t) (u @ h # w) \<longleftrightarrow> sublist (h # t) u \<or> sublist (h # t) (h # w)"
proof (induction u)
  case Nil
  show ?case by simp
next
  case (Cons x u)
  have "prefix (h # t) (x # u @ h # w) \<Longrightarrow> prefix (h # t) (x # u)"
    using prefix_marker_inside [OF _ assms] by blast
  moreover have "prefix (h # t) (x # u) \<Longrightarrow> prefix (h # t) (x # u @ h # w)"
    by (metis append_Cons prefix_prefix)
  ultimately show ?case using Cons.IH
    by (auto simp: sublist_Cons_right)
qed


lemma tables_marker_Cons: "tables_marker = CHR ''<'' # ''!-- TABLES_AUTO -->''"
  by (simp add: tables_marker_def)

lemma figs_marker_Cons: "figs_marker = CHR ''<'' # ''!-- FIGS_AUTO -->''"
  by (simp add: figs_marker_def)

lemma no_tables_marker_across_figs:
  assumes "\<not> sublist tables_marker b" and "\<not> sublist tables_marker c"
  shows "\<not> sublist tables_marker (b @ figs_marker @ c)"
proof -
  have "\<not> sublist tables_marker (figs_marker @ c)"
    using assms(2) unfolding tables_marker_Cons figs_marker_Cons
    by (simp add: sublist_Cons_right sublist_skip_free [of _ "''!-- FIGS_AUTO -->''", simplified])
  then show ?thesis
    using assms(1) unfolding tables_marker_Cons figs_marker_Cons
    by (simp add: sublist_before_head)
qed

lemma replace_tables_first:
  assumes "\<not> sublist tables_marker a"
  shows "replace tables_marker new (a @ tables_marker @ r) = a @ new @ replace tables_marker new r"
  using assms replace_ne_first [of "CHR ''<''" "''!-- TABLES_AUTO -->''" a new r]
  by (simp add: replace_def tables_marker_def)

lemma replace_figs_first:
  assumes "\<not> sublist figs_marker a"
  shows "replace figs_marker new (a @ figs_marker @ r) = a @ new @ replace figs_marker new r"
  using assms replace_ne_first [of "CHR ''<''" "''!-- FIGS_AUTO -->''" a new r]
  by (simp add: replace_def figs_marker_def)

lemma replace_tables_absent: "\<not> sublist tables_marker s \<Longrightarrow> replace tables_marker new s = s"
  by (rule replace_absent) (simp_all add: tables_marker_def)

lemma replace_figs_absent: "\<not> sublist figs_marker s \<Longrightarrow> replace figs_marker new s = s"
  by (rule replace_absent) (simp_all add: figs_marker_def)

lemma replace_markers_tables_first:
  assumes "\<not> sublist tables_marker a" "\<not> sublist tables_marker b" "\<not> sublist tables_marker c"
    and "\<not> sublist figs_marker (a @ tb @ b)" "\<not> sublist figs_marker c"
  shows "fst (replace_markers tb fb (a @ tables_marker @ b @ figs_marker @ c))
           = a @ tb @ b @ fb @ c"
proof -
  let ?text = "a @ tables_marker @ b @ figs_marker @ c"
  have "\<not> sublist tables_marker (b @ figs_marker @ c)"
    using assms(2,3) by (rule no_tables_marker_across_figs)
  then have 1: "replace tables_marker tb ?text = a @ tb @ b @ figs_marker @ c"
    using assms(1) by (simp add: replace_tables_first replace_tables_absent)
  have 2: "replace figs_marker fb ((a @ tb @ b) @ figs_marker @ c) = (a @ tb @ b) @ fb @ c"
    using replace_figs_first [OF assms(4), of fb c] replace_figs_absent [OF assms(5), of fb]
    by simp
  have 3: "sublist tables_marker ?text" by simp
  have 4: "sublist figs_marker (a @ tb @ b @ figs_marker @ c)"
    using sublist_appendI [of figs_marker "a @ tb @ b" c] by simp
  show ?thesis
    using 1 2 3 4 by (simp add: replace_markers_def)
qed

lemma replace_markers_figs_first:
  assumes "\<not> sublist tables_marker a" "\<not> sublist tables_marker b" "\<not> sublist tables_marker c"
    and "\<not> sublist figs_marker a" "\<not> sublist figs_marker (b @ tb @ c)"
  shows "fst (replace_markers tb fb (a @ figs_marker @ b @ tables_marker @ c))
           = a @ fb @ b @ tb @ c"
proof -
  let ?text = "a @ figs_marker @ b @ tables_marker @ c"
  have "\<not> sublist tables_marker (a @ figs_marker @ b)"
    using assms(1,2) by (rule no_tables_marker_across_figs)
  from replace_tables_first [OF this, of tb c] replace_tables_absent [OF assms(3), of tb]
  have 1: "replace tables_marker tb ?text = a @ figs_marker @ b @ tb @ c" by simp
  have 2: "replace figs_marker fb (a @ figs_marker @ b @ tb @ c) = a @ fb @ b @ tb @ c"
    using replace_figs_first [OF assms(4), of fb "b @ tb @ c"]
      replace_figs_absent [OF assms(5), of fb]
    by simp
  have 3: "sublist tables_marker ?text"
    using sublist_appendI [of tables_marker "a @ figs_marker @ b" c] by simp
  have 4: "sublist figs_marker (a @ figs_marker @ b @ tb @ c)" by simp
  show ?thesis
    using 1 2 3 4 by (simp add: replace_markers_def)
qed

lemma file_after_Text:
  "file_after (update_readme root linesep (Text doc) tb fb)
     = Text (write_newlines linesep (fst (replace_markers tb fb (universal_newlines doc))))"
  by (simp add: update_readme_def split: prod.splits)

lemma wrote_Text:
  "wrote (update_readme root linesep (Text doc) tb fb)
     = Some (fst (replace_markers tb fb (universal_newlines doc)))"
  by (simp add: update_readme_def split: prod.splits)

lemma universal_newlines_no_CR: "CR \<notin> set s \<Longrightarrow> universal_newlines s = s"
  by (induction s rule: universal_newlines.induct) auto

lemma write_newlines_posix: "write_newlines posix_linesep s = s"
  by (induction s) (simp_all add: write_newlines_def posix_linesep_def)


text \<open>
  C1 (as amended). A README that contains neither marker and no carriage return is left
  byte for byte as it was on a POSIX host: \<open>write_text\<close> is still called, with the text
  that was read. (A README with only one of the two markers is rewritten with that
  marker replaced, see the counterexample below.)
\<close>

theorem update_readme_no_markers:
  "\<not> sublist tables_marker doc \<Longrightarrow> \<not> sublist figs_marker doc \<Longrightarrow> CR \<notin> set doc \<Longrightarrow>
   file_after (update_readme root posix_linesep (Text doc) tables_block figs_block) = Text doc
   \<and> wrote (update_readme root posix_linesep (Text doc) tables_block figs_block) = Some doc"
  by (simp add: file_after_Text wrote_Text universal_newlines_no_CR write_newlines_posix
      replace_markers_def)

theorem update_readme_no_markers_witness:
  "\<not> sublist tables_marker ''# Title'' \<and> \<not> sublist figs_marker ''# Title''
   \<and> CR \<notin> set ''# Title''
   \<and> file_after (update_readme [''repo''] posix_linesep (Text ''# Title'') ''T'' ''F'')
       = Text ''# Title''"
proof -
  have a: "\<not> sublist tables_marker ''# Title''"
    by (simp add: tables_marker_def sublist_Cons_right)
  have b: "\<not> sublist figs_marker ''# Title''"
    by (simp add: figs_marker_def sublist_Cons_right)
  have c: "CR \<notin> set ''# Title''" by (simp add: CR_def)
  from update_readme_no_markers [OF a b c, of "[''repo'']" "''T''" "''F''"] a b c
  show ?thesis by blast
qed

text \<open>A README with the tables marker only does not contain both markers, and is changed.\<close>

theorem update_readme_one_marker_counterexample:
  "\<not> (sublist tables_marker ''<!-- TABLES_AUTO -->'' \<and> sublist figs_marker ''<!-- TABLES_AUTO -->'')
   \<and> file_after (update_readme [''repo''] posix_linesep (Text ''<!-- TABLES_AUTO -->'') ''T'' ''F'')
       = Text ''T''
   \<and> Text ''T'' \<noteq> Text ''<!-- TABLES_AUTO -->''"
  by (simp add: update_readme_def replace_markers_def tables_marker_def figs_marker_def
      replace_def sublist_Cons_right write_newlines_def posix_linesep_def LF_def CR_def)

text \<open>
  C2 (as amended). When the text read from the README contains each marker exactly once
  (it is \<open>a @ marker @ b @ marker' @ c\<close> with no tables marker in \<open>a\<close>, \<open>b\<close>, \<open>c\<close>), and
  splicing in the tables block creates no further occurrence of the figures marker, the
  file written is the text with the tables marker replaced by the tables block and the
  figures marker by the figures block, whichever marker comes first. (\<open>str.replace\<close>
  substitutes every occurrence, so a marker that occurs twice is substituted twice, see
  the counterexample below.)
\<close>

theorem update_readme_both_once:
  "(universal_newlines doc = a @ tables_marker @ b @ figs_marker @ c
      \<and> \<not> sublist tables_marker a \<and> \<not> sublist tables_marker b \<and> \<not> sublist tables_marker c
      \<and> \<not> sublist figs_marker (a @ tables_block @ b) \<and> \<not> sublist figs_marker c
    \<longrightarrow> file_after (update_readme root linesep (Text doc) tables_block figs_block)
          = Text (write_newlines linesep (a @ tables_block @ b @ figs_block @ c)))
   \<and> (universal_newlines doc = a @ figs_marker @ b @ tables_marker @ c
      \<and> \<not> sublist tables_marker a \<and> \<not> sublist tables_marker b \<and> \<not> sublist tables_marker c
      \<and> \<not> sublist figs_marker a \<and> \<not> sublist figs_marker (b @ tables_block @ c)
    \<longrightarrow> file_after (update_readme root linesep (Text doc) tables_block figs_block)
          = Text (write_newlines linesep (a @ figs_block @ b @ tables_block @ c)))"
  by (simp add: file_after_Text replace_markers_tables_first replace_markers_figs_first)

theorem update_readme_both_once_witness:
  "file_after (update_readme [''repo''] posix_linesep
      (Text ''A <!-- TABLES_AUTO --> B <!-- FIGS_AUTO --> C'') ''tt'' ''ff'')
     = Text ''A tt B ff C''
   \<and> file_after (update_readme [''repo''] posix_linesep
      (Text ''A <!-- FIGS_AUTO --> B <!-- TABLES_AUTO --> C'') ''tt'' ''ff'')
     = Text ''A ff B tt C''"
proof -
  have t: "\<not> sublist tables_marker ''A ''" "\<not> sublist tables_marker '' B ''"
    "\<not> sublist tables_marker '' C''"
    by (simp_all add: tables_marker_def sublist_Cons_right)
  have f: "\<not> sublist figs_marker ''A ''" "\<not> sublist figs_marker '' C''"
    "\<not> sublist figs_marker (''A '' @ ''tt'' @ '' B '')"
    "\<not> sublist figs_marker ('' B '' @ ''tt'' @ '' C'')"
    by (simp_all add: figs_marker_def sublist_Cons_right)
  have d1: "universal_newlines ''A <!-- TABLES_AUTO --> B <!-- FIGS_AUTO --> C''
              = ''A '' @ tables_marker @ '' B '' @ figs_marker @ '' C''"
    by (simp add: tables_marker_def figs_marker_def CR_def)
  have d2: "universal_newlines ''A <!-- FIGS_AUTO --> B <!-- TABLES_AUTO --> C''
              = ''A '' @ figs_marker @ '' B '' @ tables_marker @ '' C''"
    by (simp add: tables_marker_def figs_marker_def CR_def)
  have w: "write_newlines posix_linesep s = s" for s by (rule write_newlines_posix)
  from update_readme_both_once
         [of "''A <!-- TABLES_AUTO --> B <!-- FIGS_AUTO --> C''" "''A ''" "'' B ''" "'' C''"
             "''tt''" "[''repo'']" posix_linesep "''ff''"] d1 t f
  have 1: "file_after (update_readme [''repo''] posix_linesep
      (Text ''A <!-- TABLES_AUTO --> B <!-- FIGS_AUTO --> C'') ''tt'' ''ff'')
     = Text (write_newlines posix_linesep (''A '' @ ''tt'' @ '' B '' @ ''ff'' @ '' C''))"
    by blast
  from update_readme_both_once
         [of "''A <!-- FIGS_AUTO --> B <!-- TABLES_AUTO --> C''" "''A ''" "'' B ''" "'' C''"
             "''tt''" "[''repo'']" posix_linesep "''ff''"] d2 t f
  have 2: "file_after (update_readme [''repo''] posix_linesep
      (Text ''A <!-- FIGS_AUTO --> B <!-- TABLES_AUTO --> C'') ''tt'' ''ff'')
     = Text (write_newlines posix_linesep (''A '' @ ''ff'' @ '' B '' @ ''tt'' @ '' C''))"
    by blast
  from 1 2 show ?thesis by (simp add: w)
qed

text \<open>A README with the tables marker twice: two substitutions of that marker.\<close>

theorem update_readme_twice_counterexample:
  "sublist tables_marker ''<!-- TABLES_AUTO --><!-- TABLES_AUTO --><!-- FIGS_AUTO -->''
   \<and> sublist figs_marker ''<!-- TABLES_AUTO --><!-- TABLES_AUTO --><!-- FIGS_AUTO -->''
   \<and> substitutions tables_marker ''<!-- TABLES_AUTO --><!-- TABLES_AUTO --><!-- FIGS_AUTO -->'' = 2
   \<and> file_after (update_readme [''repo''] posix_linesep
        (Text ''<!-- TABLES_AUTO --><!-- TABLES_AUTO --><!-- FIGS_AUTO -->'') ''T'' ''F'')
       = Text ''TTF''"
  by (simp add: update_readme_def replace_markers_def tables_marker_def figs_marker_def
      replace_def substitutions_def sublist_Cons_right write_newlines_def posix_linesep_def
      LF_def CR_def)

text \<open>
  C9. When \<open>README.md\<close> does not exist below the root, \<open>update_readme\<close> prints the
  warning on standard error and returns: \<open>write_text\<close> is not called, the file is still
  absent and no exception is raised.
\<close>

theorem update_readme_absent:
  "update_readme root linesep Absent tables_block figs_block =
     \<lparr>file_after = Absent, wrote = None,
      printed = [Stderr (''Warning: README.md not found at '' @ str_abs (root @ [''README.md'']))],
      raised = None\<rparr>"
  by (simp add: update_readme_def)

section \<open>Properties of the archive publisher\<close>

subsection \<open>Which events a computation emits\<close>

lemma emits_only_ret [intro!]: "emits_only E (ret x)"
  by (simp add: emits_only_def ret_def)

lemma emits_only_raise [intro!]: "emits_only E (raise e)"
  by (simp add: emits_only_def raise_def)

lemma emits_only_sys_exit [intro!]: "emits_only E (sys_exit n)"
  by (simp add: emits_only_def sys_exit_def)

lemma emits_only_emit: "e \<in> E \<Longrightarrow> emits_only E (emit e)"
  by (simp add: emits_only_def emit_def)

lemma emits_only_request: "Request c u \<in> E \<Longrightarrow> emits_only E (request w c u)"
  by (auto simp: emits_only_def request_def split: reply.splits)

lemma emits_only_bind:
  assumes "emits_only E m" and "\<And>x. emits_only E (f x)"
  shows "emits_only E (bind m f)"
  unfolding emits_only_def
proof
  fix tr
  from assms(1) obtain e1 where e1: "snd (m tr) = tr @ e1" "set e1 \<subseteq> E"
    unfolding emits_only_def by blast
  show "\<exists>ext. snd (bind m f tr) = tr @ ext \<and> set ext \<subseteq> E"
  proof (cases "fst (m tr)")
    case (Inl a)
    with e1 show ?thesis
      by (cases "m tr") (auto simp: bind_def)
  next
    case (Inr x)
    from assms(2) [of x] obtain e2 where e2: "snd (f x (tr @ e1)) = (tr @ e1) @ e2" "set e2 \<subseteq> E"
      unfolding emits_only_def by blast
    with Inr e1 show ?thesis
      by (cases "m tr") (auto simp: bind_def)
  qed
qed

lemma emits_only_mono: "emits_only E m \<Longrightarrow> E \<subseteq> E' \<Longrightarrow> emits_only E' m"
  unfolding emits_only_def by blast

lemma emits_only_raise_for_status [intro!]: "emits_only E (raise_for_status r)"
  by (auto simp: raise_for_status_def)

lemma emits_only_json_of [intro!]: "emits_only E (json_of r)"
  by (auto simp: json_of_def split: body.splits)

lemma emits_only_get_key [intro!]: "emits_only E (get_key k v)"
  by (auto simp: get_key_def split: option.splits)

lemma emits_only_open_rb [intro!]: "emits_only E (open_rb w p)"
  by (auto simp: open_rb_def)

lemma emits_only_if:
  "(c \<Longrightarrow> emits_only E m) \<Longrightarrow> (\<not> c \<Longrightarrow> emits_only E n) \<Longrightarrow> emits_only E (if c then m else n)"
  by simp

lemmas emits_only_intros =
  emits_only_bind emits_only_emit emits_only_request emits_only_if

lemma create_deposition_events:
  "emits_only (deposit_events (base_url self)) (create_deposition w self meta)"
  unfolding create_deposition_def
  by (intro emits_only_intros emits_only_ret emits_only_raise_for_status emits_only_json_of emits_only_get_key)
     (simp_all add: deposit_events_def)

lemma upload_file_events:
  "emits_only (deposit_events (base_url self)) (upload_file w self d p)"
  unfolding upload_file_def
  by (intro emits_only_intros emits_only_ret emits_only_raise_for_status emits_only_json_of emits_only_get_key emits_only_open_rb)
     (simp_all add: deposit_events_def)

lemma upload_all_events:
  "emits_only (deposit_events (base_url self)) (upload_all w self d ps)"
  by (induction ps) (auto intro!: emits_only_bind upload_file_events)

lemma deposit_emits:
  "emits_only (deposit_events (base_url self)) (deposit w self meta files)"
  unfolding deposit_def
  by (intro emits_only_intros emits_only_ret emits_only_get_key create_deposition_events upload_all_events)
     (simp_all add: deposit_events_def)

lemma download_assets_events:
  "emits_only prepare_events (download_assets w xs files)"
proof (induction xs arbitrary: files)
  case Nil
  show ?case by auto
next
  case (Cons a xs)
  show ?case
    unfolding download_assets.simps
    by (intro emits_only_intros emits_only_get_key emits_only_raise_for_status Cons.IH)
       (simp_all add: prepare_events_def)
qed

lemma download_release_events:
  "emits_only prepare_events (download_release w owner repo tg)"
  unfolding download_release_def
  by (intro emits_only_intros emits_only_json_of emits_only_raise_for_status download_assets_events)
     (simp_all add: prepare_events_def)

lemma prepare_emits:
  "emits_only prepare_events (prepare a w tok)"
  unfolding prepare_def collect_files_def init_uploader_def load_zenodo_metadata_def
  by (intro emits_only_intros emits_only_ret emits_only_sys_exit download_release_events)
     (auto simp: prepare_events_def split: metadata_file.splits)

subsection \<open>Leaving through sys.exit\<close>

lemma exits_one_ret [intro!]: "exits_one (ret x)"
  by (simp add: exits_one_def ret_def)

lemma exits_one_raise [intro!]: "exits_one (raise e)"
  by (simp add: exits_one_def raise_def)

lemma exits_one_sys_exit [intro!]: "exits_one (sys_exit 1)"
  by (simp add: exits_one_def sys_exit_def)

lemma exits_one_emit [intro!]: "exits_one (emit e)"
  by (simp add: exits_one_def emit_def)

lemma exits_one_request [intro!]: "exits_one (request w c u)"
  by (auto simp: exits_one_def request_def split: reply.splits)

lemma exits_one_bind:
  assumes "exits_one m" and "\<And>x. exits_one (f x)"
  shows "exits_one (bind m f)"
  unfolding exits_one_def
proof (intro allI impI)
  fix tr n
  assume a: "fst (bind m f tr) = Inl (SysExit n)"
  show "n = 1"
  proof (cases "fst (m tr)")
    case (Inl b)
    with a have "fst (m tr) = Inl (SysExit n)"
      by (cases "m tr") (auto simp: bind_def)
    with assms(1) show ?thesis unfolding exits_one_def by blast
  next
    case (Inr x)
    with a have "fst (f x (snd (m tr))) = Inl (SysExit n)"
      by (cases "m tr") (auto simp: bind_def)
    with assms(2) [of x] show ?thesis unfolding exits_one_def by blast
  qed
qed

lemma exits_one_if:
  "(c \<Longrightarrow> exits_one m) \<Longrightarrow> (\<not> c \<Longrightarrow> exits_one n) \<Longrightarrow> exits_one (if c then m else n)"
  by simp

lemma exits_one_raise_for_status [intro!]: "exits_one (raise_for_status r)"
  by (auto simp: raise_for_status_def)

lemma exits_one_json_of [intro!]: "exits_one (json_of r)"
  by (auto simp: json_of_def split: body.splits)

lemma exits_one_get_key [intro!]: "exits_one (get_key k v)"
  by (auto simp: get_key_def split: option.splits)

lemma exits_one_open_rb [intro!]: "exits_one (open_rb w p)"
  by (auto simp: open_rb_def)

lemma exits_one_download_assets: "exits_one (download_assets w xs files)"
  by (induction xs arbitrary: files) (auto intro!: exits_one_bind)

lemma exits_one_upload_all: "exits_one (upload_all w self d ps)"
  by (induction ps) (auto intro!: exits_one_bind simp: upload_file_def)

lemma exits_one_prepare: "exits_one (prepare a w tok)"
  unfolding prepare_def collect_files_def init_uploader_def load_zenodo_metadata_def
    download_release_def
  by (auto intro!: exits_one_bind exits_one_download_assets split: metadata_file.splits)

lemma exits_one_deposit: "exits_one (deposit w self meta files)"
  unfolding deposit_def create_deposition_def
  by (auto intro!: exits_one_bind exits_one_upload_all)

lemma exits_one_publish_and_save: "exits_one (publish_and_save a w self d)"
  unfolding publish_and_save_def publish_deposition_def save_info_def
  by (auto intro!: exits_one_bind)

lemma exits_one_main_try: "exits_one (main_try a w tok)"
  unfolding main_try_def
  by (auto intro!: exits_one_bind exits_one_prepare exits_one_deposit exits_one_publish_and_save)

subsection \<open>Evaluating runs\<close>

lemmas prog_defs = bind_def ret_def raise_def sys_exit_def emit_def request_def
  raise_for_status_def json_of_def get_key_def open_rb_def n_requests_def

lemmas main_defs = main_def main_try_def prepare_def collect_files_def init_uploader_def
  load_zenodo_metadata_def download_release_def deposit_def create_deposition_def
  upload_file_def publish_and_save_def publish_deposition_def save_info_def no_token_def
  exit_status_def

lemmas example_defs = good_world_def example_args_def good_responses_def ok_reply_def
  json_empty_def not_found_def bad_download_world_def

lemma good_run_events:
  "filter is_request (events (main example_args good_world)) =
    [Request ReleaseLookup ''https://api.github.com/repos/owner/repo/releases/tags/v1.0.0'',
     Request AssetDownload ''https://example.org/a.zip'',
     Request CreateDeposition ''https://sandbox.zenodo.org/api/deposit/depositions'',
     Request UploadFile ''https://sandbox.zenodo.org/api/deposit/depositions/42/files'',
     Request PublishDeposition
       ''https://sandbox.zenodo.org/api/deposit/depositions/42/actions/publish'']"
  by (simp add: main_defs prog_defs example_defs ZENODO_SANDBOX_def)

lemma good_run_try: "fst (main_try example_args good_world ''secret'' []) = Inr ()"
  by (simp add: main_defs prog_defs example_defs)

lemma bad_run_try:
  "fst (main_try example_args bad_download_world ''secret'' []) = Inl (Raised (HTTPError 404))"
  by (simp add: main_defs prog_defs example_defs)

subsection \<open>The exit status\<close>

text \<open>
  C5. When \<open>ZENODO_TOKEN\<close> is unset (or empty), the process exits with status 1 and the
  run contains no remote request.
\<close>

theorem no_token_no_network:
  "env_token w = None \<or> env_token w = Some [] \<Longrightarrow>
   exit_status (main a w) = 1 \<and> (\<forall>e\<in>set (events (main a w)). \<not> is_request e)"
  by (auto simp: main_def no_token_def exit_status_def)

theorem no_token_no_network_witness:
  "env_token (good_world\<lparr>env_token := None\<rparr>) = None
   \<and> exit_status (main example_args (good_world\<lparr>env_token := None\<rparr>)) = 1
   \<and> filter is_request (events (main example_args (good_world\<lparr>env_token := None\<rparr>))) = []"
  using no_token_no_network [of "good_world\<lparr>env_token := None\<rparr>" example_args]
  by (simp add: filter_empty_conv)

lemma exit_status_range: "exit_status (main a w) = 0 \<or> exit_status (main a w) = 1"
proof (cases "env_token w = None \<or> env_token w = Some []")
  case True
  then show ?thesis by (auto simp: main_def no_token_def exit_status_def)
next
  case False
  then obtain tok where tok: "env_token w = Some tok" "tok \<noteq> []" by auto
  show ?thesis
  proof (cases "main_try a w tok []")
    case (Pair r tr)
    show ?thesis
    proof (cases r)
      case (Inr u)
      with Pair tok show ?thesis by (simp add: main_def exit_status_def)
    next
      case (Inl ab)
      show ?thesis
      proof (cases ab)
        case (Raised e)
        with Inl Pair tok show ?thesis by (simp add: main_def exit_status_def)
      next
        case (SysExit n)
        with Inl Pair have "fst (main_try a w tok []) = Inl (SysExit n)" by simp
        with exits_one_main_try [of a w tok] have "n = 1" unfolding exits_one_def by blast
        with SysExit Inl Pair tok show ?thesis by (simp add: main_def exit_status_def)
      qed
    qed
  qed
qed

lemma main_status_returned:
  "env_token w = Some tok \<Longrightarrow> tok \<noteq> [] \<Longrightarrow> fst (main_try a w tok []) = Inr u
   \<Longrightarrow> exit_status (main a w) = 0"
  by (cases "main_try a w tok []") (simp add: main_def exit_status_def)

lemma main_status_raised:
  "env_token w = Some tok \<Longrightarrow> tok \<noteq> [] \<Longrightarrow> fst (main_try a w tok []) = Inl (Raised e)
   \<Longrightarrow> exit_status (main a w) = 1"
  by (cases "main_try a w tok []") (simp add: main_def exit_status_def)

lemma main_status_no_metadata:
  "env_token w = Some tok \<Longrightarrow> tok \<noteq> [] \<Longrightarrow> metadata_state w = Missing
   \<Longrightarrow> exit_status (main a w) = 1"
  by (simp add: main_def main_try_def prepare_def prog_defs exit_status_def)

lemma main_status_no_files_local:
  "env_token w = Some tok \<Longrightarrow> tok \<noteq> [] \<Longrightarrow> metadata_state w = Loaded m
   \<Longrightarrow> skip_download a \<Longrightarrow> releases_dir w = None \<or> releases_dir w = Some []
   \<Longrightarrow> exit_status (main a w) = 1"
  by (auto simp: main_def main_try_def prepare_def collect_files_def init_uploader_def
      load_zenodo_metadata_def prog_defs exit_status_def)

lemma main_status_no_assets:
  "env_token w = Some tok \<Longrightarrow> tok \<noteq> [] \<Longrightarrow> metadata_state w = Loaded m
   \<Longrightarrow> \<not> skip_download a \<Longrightarrow> responses w 0 = Reply r
   \<Longrightarrow> \<not> (400 \<le> status_code r \<and> status_code r < 600) \<Longrightarrow> body r = Json j
   \<Longrightarrow> assets j = None \<or> assets j = Some []
   \<Longrightarrow> exit_status (main a w) = 1"
  by (auto simp: main_def main_try_def prepare_def collect_files_def init_uploader_def
      load_zenodo_metadata_def download_release_def prog_defs exit_status_def)

text \<open>
  C4. The exit status is 0 when the \<open>try\<close> block runs to its end, and 1 when the token
  is missing, when the metadata file is absent, when there are no files to upload (no
  entries in \<open>releases\<close> with \<open>--skip-download\<close>, no assets in the release otherwise),
  and when an exception is raised in the \<open>try\<close> block. It is never anything else.
\<close>

theorem exit_status_cases:
  "(exit_status (main a w) = 0 \<or> exit_status (main a w) = 1)
   \<and> (env_token w = None \<or> env_token w = Some [] \<longrightarrow> exit_status (main a w) = 1)
   \<and> (\<forall>tok. env_token w = Some tok \<and> tok \<noteq> [] \<longrightarrow>
         (fst (main_try a w tok []) = Inr () \<longrightarrow> exit_status (main a w) = 0)
       \<and> (metadata_state w = Missing \<longrightarrow> exit_status (main a w) = 1)
       \<and> ((\<exists>m. metadata_state w = Loaded m) \<and> skip_download a
            \<and> (releases_dir w = None \<or> releases_dir w = Some [])
          \<longrightarrow> exit_status (main a w) = 1)
       \<and> ((\<exists>m. metadata_state w = Loaded m) \<and> \<not> skip_download a
            \<and> (\<exists>r j. responses w 0 = Reply r
                  \<and> \<not> (400 \<le> status_code r \<and> status_code r < 600)
                  \<and> body r = Json j \<and> (assets j = None \<or> assets j = Some []))
          \<longrightarrow> exit_status (main a w) = 1)
       \<and> (\<forall>e. fst (main_try a w tok []) = Inl (Raised e) \<longrightarrow> exit_status (main a w) = 1))"
proof (intro conjI allI impI)
  show "exit_status (main a w) = 0 \<or> exit_status (main a w) = 1"
    by (rule exit_status_range)
next
  assume "env_token w = None \<or> env_token w = Some []"
  then show "exit_status (main a w) = 1"
    by (auto simp: main_def no_token_def exit_status_def)
next
  fix tok
  assume t: "env_token w = Some tok \<and> tok \<noteq> []"
  {
    assume "fst (main_try a w tok []) = Inr ()"
    with t show "exit_status (main a w) = 0" by (auto intro: main_status_returned)
  next
    assume "metadata_state w = Missing"
    with t show "exit_status (main a w) = 1" by (auto intro: main_status_no_metadata)
  next
    assume "(\<exists>m. metadata_state w = Loaded m) \<and> skip_download a
            \<and> (releases_dir w = None \<or> releases_dir w = Some [])"
    with t show "exit_status (main a w) = 1"
      using main_status_no_files_local [of w tok _ a] by blast
  next
    assume "(\<exists>m. metadata_state w = Loaded m) \<and> \<not> skip_download a
            \<and> (\<exists>r j. responses w 0 = Reply r
                  \<and> \<not> (400 \<le> status_code r \<and> status_code r < 600)
                  \<and> body r = Json j \<and> (assets j = None \<or> assets j = Some []))"
    with t show "exit_status (main a w) = 1"
      using main_status_no_assets [of w tok _ a] by blast
  next
    fix e
    assume "fst (main_try a w tok []) = Inl (Raised e)"
    with t show "exit_status (main a w) = 1" by (auto intro: main_status_raised)
  }
qed

theorem exit_status_cases_witness:
  "exit_status (main example_args good_world) = 0
   \<and> exit_status (main example_args (good_world\<lparr>env_token := None\<rparr>)) = 1
   \<and> exit_status (main example_args (good_world\<lparr>metadata_state := Missing\<rparr>)) = 1
   \<and> exit_status (main (example_args\<lparr>skip_download := True\<rparr>) good_world) = 1
   \<and> exit_status (main example_args (good_world\<lparr>responses := (\<lambda>n. ok_reply json_empty)\<rparr>)) = 1
   \<and> exit_status (main example_args bad_download_world) = 1"
proof -
  have tok: "env_token good_world = Some ''secret'' \<and> ''secret'' \<noteq> []"
    by (simp add: good_world_def)
  have 1: "exit_status (main example_args good_world) = 0"
    using exit_status_cases [of example_args good_world] tok good_run_try by blast
  have 2: "exit_status (main example_args (good_world\<lparr>env_token := None\<rparr>)) = 1"
    using exit_status_cases [of example_args "good_world\<lparr>env_token := None\<rparr>"] by simp
  have 3: "exit_status (main example_args (good_world\<lparr>metadata_state := Missing\<rparr>)) = 1"
    using exit_status_cases [of example_args "good_world\<lparr>metadata_state := Missing\<rparr>"] tok
    by simp
  have "(\<exists>m. metadata_state good_world = Loaded m) \<and> skip_download (example_args\<lparr>skip_download := True\<rparr>)
        \<and> (releases_dir good_world = None \<or> releases_dir good_world = Some [])"
    by (simp add: good_world_def)
  then have 4: "exit_status (main (example_args\<lparr>skip_download := True\<rparr>) good_world) = 1"
    using exit_status_cases [of "example_args\<lparr>skip_download := True\<rparr>" good_world] tok
    by blast
  let ?w = "good_world\<lparr>responses := (\<lambda>n. ok_reply json_empty)\<rparr>"
  have "(\<exists>m. metadata_state ?w = Loaded m) \<and> \<not> skip_download example_args
        \<and> (\<exists>r j. responses ?w 0 = Reply r
              \<and> \<not> (400 \<le> status_code r \<and> status_code r < 600)
              \<and> body r = Json j \<and> (assets j = None \<or> assets j = Some []))"
    by (simp add: good_world_def example_args_def ok_reply_def json_empty_def)
  moreover have "env_token ?w = Some ''secret'' \<and> ''secret'' \<noteq> []"
    by (simp add: good_world_def)
  ultimately have 5: "exit_status (main example_args ?w) = 1"
    using exit_status_cases [of example_args ?w] by blast
  have "env_token bad_download_world = Some ''secret'' \<and> ''secret'' \<noteq> []"
    by (simp add: bad_download_world_def good_world_def)
  then have 6: "exit_status (main example_args bad_download_world) = 1"
    using exit_status_cases [of example_args bad_download_world] bad_run_try by blast
  from 1 2 3 4 5 6 show ?thesis by blast
qed

subsection \<open>Stopping at a failed request\<close>

lemma n_requests_append [simp]: "n_requests (xs @ ys) = n_requests xs + n_requests ys"
  by (simp add: n_requests_def)

lemma fail_stop_quiet:
  assumes "emits_only {e. \<not> is_request e} m"
  shows "fail_stop w m"
  unfolding fail_stop_def
proof
  fix tr
  from assms obtain ext where e: "snd (m tr) = tr @ ext" "set ext \<subseteq> {e. \<not> is_request e}"
    unfolding emits_only_def by blast
  have "ext \<noteq> pre @ Request c u # post" for pre c u post
    using e(2) by auto
  with e(1) show "\<exists>ext. snd (m tr) = tr @ ext \<and>
        (\<forall>pre c u post. ext = pre @ Request c u # post
            \<and> fails (responses w (n_requests (tr @ pre)))
            \<longrightarrow> post = [] \<and> (\<exists>e. fst (m tr) = Inl (Raised e)))"
    by blast
qed

lemma fail_stop_bind:
  assumes m: "fail_stop w m" and f: "\<And>x. fail_stop w (f x)"
  shows "fail_stop w (bind m f)"
  unfolding fail_stop_def
proof
  fix tr
  from m obtain e1 where e1: "snd (m tr) = tr @ e1"
    and p1: "\<And>pre c u post. e1 = pre @ Request c u # post \<Longrightarrow>
               fails (responses w (n_requests (tr @ pre))) \<Longrightarrow>
               post = [] \<and> (\<exists>e. fst (m tr) = Inl (Raised e))"
    unfolding fail_stop_def by blast
  show "\<exists>ext. snd (bind m f tr) = tr @ ext \<and>
        (\<forall>pre c u post. ext = pre @ Request c u # post
            \<and> fails (responses w (n_requests (tr @ pre)))
            \<longrightarrow> post = [] \<and> (\<exists>e. fst (bind m f tr) = Inl (Raised e)))"
  proof (cases "fst (m tr)")
    case (Inl ab)
    then have "bind m f tr = (Inl ab, tr @ e1)"
      using e1 by (cases "m tr") (simp add: bind_def)
    with Inl p1 show ?thesis by auto
  next
    case (Inr x)
    from f [of x] obtain e2 where e2: "snd (f x (tr @ e1)) = (tr @ e1) @ e2"
      and p2: "\<And>pre c u post. e2 = pre @ Request c u # post \<Longrightarrow>
               fails (responses w (n_requests ((tr @ e1) @ pre))) \<Longrightarrow>
               post = [] \<and> (\<exists>e. fst (f x (tr @ e1)) = Inl (Raised e))"
      unfolding fail_stop_def by blast
    have b: "bind m f tr = f x (tr @ e1)"
      using Inr e1 by (cases "m tr") (simp add: bind_def)
    have "post = [] \<and> (\<exists>e. fst (f x (tr @ e1)) = Inl (Raised e))"
      if d: "e1 @ e2 = pre @ Request c u # post"
        and fl: "fails (responses w (n_requests (tr @ pre)))" for pre c u post
    proof -
      from d consider us where "e1 = pre @ us" "us @ e2 = Request c u # post"
        | us where "e1 @ us = pre" "e2 = us @ Request c u # post"
        by (auto simp: append_eq_append_conv2)
      then show ?thesis
      proof cases
        case 1
        show ?thesis
        proof (cases us)
          case Nil
          with 1 have "e2 = [] @ Request c u # post" "e1 = pre" by simp_all
          with p2 [of "[]" c u post] fl show ?thesis by simp
        next
          case (Cons y ys)
          with 1 have "e1 = pre @ Request c u # ys" by simp
          from p1 [OF this fl] Inr show ?thesis by simp
        qed
      next
        case 2
        with fl have "fails (responses w (n_requests ((tr @ e1) @ us)))" by auto
        from p2 [OF 2(2) this] show ?thesis .
      qed
    qed
    with b e2 show ?thesis by (intro exI [of _ "e1 @ e2"]) auto
  qed
qed

lemma fail_stop_request:
  assumes k: "\<And>r. fail_stop w (k r)"
  shows "fail_stop w (bind (request w c u) (\<lambda>r. bind (raise_for_status r) (\<lambda>_. k r)))"
    (is "fail_stop w ?m")
  unfolding fail_stop_def
proof
  fix tr
  let ?rq = "Request c u"
  show "\<exists>ext. snd (?m tr) = tr @ ext \<and>
        (\<forall>pre c' u' post. ext = pre @ Request c' u' # post
            \<and> fails (responses w (n_requests (tr @ pre)))
            \<longrightarrow> post = [] \<and> (\<exists>e. fst (?m tr) = Inl (Raised e)))"
  proof (cases "fails (responses w (n_requests tr))")
    case True
    then have "\<exists>e. ?m tr = (Inl (Raised e), tr @ [?rq])"
      by (auto simp: fails_def bind_def request_def raise_for_status_def raise_def
          split: reply.splits)
    then obtain e where "?m tr = (Inl (Raised e), tr @ [?rq])" ..
    then show ?thesis
      by (intro exI [of _ "[?rq]"]) (auto simp: append_eq_Cons_conv Cons_eq_append_conv)
  next
    case False
    then obtain r where r: "responses w (n_requests tr) = Reply r"
      "\<not> (400 \<le> status_code r \<and> status_code r < 600)"
      by (auto simp: fails_def split: reply.splits)
    then have b: "?m tr = k r (tr @ [?rq])"
      by (auto simp: bind_def request_def raise_for_status_def ret_def)
    from k [of r] obtain e2 where e2: "snd (k r (tr @ [?rq])) = (tr @ [?rq]) @ e2"
      and p2: "\<And>pre c' u' post. e2 = pre @ Request c' u' # post \<Longrightarrow>
               fails (responses w (n_requests ((tr @ [?rq]) @ pre))) \<Longrightarrow>
               post = [] \<and> (\<exists>e. fst (k r (tr @ [?rq])) = Inl (Raised e))"
      unfolding fail_stop_def by blast
    have "post = [] \<and> (\<exists>e. fst (k r (tr @ [?rq])) = Inl (Raised e))"
      if d: "?rq # e2 = pre @ Request c' u' # post"
        and fl: "fails (responses w (n_requests (tr @ pre)))" for pre c' u' post
    proof (cases pre)
      case Nil
      with fl False show ?thesis by simp
    next
      case (Cons y ys)
      with d have "e2 = ys @ Request c' u' # post" "y = ?rq" by simp_all
      moreover from Cons fl \<open>y = ?rq\<close>
      have "fails (responses w (n_requests ((tr @ [?rq]) @ ys)))" by simp
      ultimately show ?thesis using p2 by blast
    qed
    with b e2 show ?thesis by (intro exI [of _ "?rq # e2"]) auto
  qed
qed

lemma quiet_ret: "emits_only {e. \<not> is_request e} (ret x)" by auto
lemma quiet_emit_Print: "emits_only {e. \<not> is_request e} (emit (Print s))"
  by (rule emits_only_emit) simp
lemma quiet_emit_WriteFile: "emits_only {e. \<not> is_request e} (emit (WriteFile p c))"
  by (rule emits_only_emit) simp
lemma quiet_emit_WriteSummary: "emits_only {e. \<not> is_request e} (emit (WriteSummary i))"
  by (rule emits_only_emit) simp
lemma quiet_emit_Mkdir: "emits_only {e. \<not> is_request e} (emit (Mkdir p))"
  by (rule emits_only_emit) simp

lemmas quiet_intros =
  emits_only_bind emits_only_if emits_only_ret emits_only_raise emits_only_sys_exit
  emits_only_raise_for_status emits_only_json_of emits_only_get_key emits_only_open_rb
  quiet_emit_Print quiet_emit_WriteFile quiet_emit_WriteSummary quiet_emit_Mkdir

lemma fail_stop_create_deposition: "fail_stop w (create_deposition w self meta)"
  unfolding create_deposition_def
  by (rule fail_stop_request, rule fail_stop_quiet) (intro quiet_intros)

lemma fail_stop_upload_file: "fail_stop w (upload_file w self d p)"
  unfolding upload_file_def
  apply (rule fail_stop_bind)
   apply (rule fail_stop_quiet, intro quiet_intros)
  apply (rule fail_stop_request, rule fail_stop_quiet)
  apply (intro quiet_intros)
  done

lemma fail_stop_upload_all: "fail_stop w (upload_all w self d ps)"
proof (induction ps)
  case Nil
  show ?case by (simp, rule fail_stop_quiet, intro quiet_intros)
next
  case (Cons p ps)
  show ?case
    unfolding upload_all.simps
    by (rule fail_stop_bind, rule fail_stop_upload_file, rule Cons.IH)
qed

lemma fail_stop_publish_deposition: "fail_stop w (publish_deposition w self d)"
  unfolding publish_deposition_def
  by (rule fail_stop_request, rule fail_stop_quiet) (intro quiet_intros)

lemma fail_stop_download_assets: "fail_stop w (download_assets w xs files)"
proof (induction xs arbitrary: files)
  case Nil
  show ?case by (simp, rule fail_stop_quiet, intro quiet_intros)
next
  case (Cons x xs)
  show ?case
    unfolding download_assets.simps
    apply (rule fail_stop_bind, rule fail_stop_quiet, intro quiet_intros)
    apply (rule fail_stop_bind, rule fail_stop_quiet, intro quiet_intros)
    apply (rule fail_stop_bind, rule fail_stop_quiet, intro quiet_intros)
    apply (rule fail_stop_request)
    apply (rule fail_stop_bind, rule fail_stop_quiet, intro quiet_intros)
    apply (rule fail_stop_bind, rule fail_stop_quiet, intro quiet_intros)
    apply (rule Cons.IH)
    done
qed

lemma fail_stop_download_release: "fail_stop w (download_release w owner repo tg)"
  unfolding download_release_def
  apply (rule fail_stop_bind, rule fail_stop_quiet, intro quiet_intros)
  apply (rule fail_stop_request)
  apply (rule fail_stop_bind, rule fail_stop_quiet, intro quiet_intros)
  apply (rule fail_stop_download_assets)
  done

lemma fail_stop_collect_files: "fail_stop w (collect_files a w self)"
  unfolding collect_files_def
  apply (cases "skip_download a")
   apply (simp, rule fail_stop_quiet, intro quiet_intros)
  apply simp
  apply (rule fail_stop_bind, rule fail_stop_quiet, intro quiet_intros)
  apply (rule fail_stop_download_release)
  done

lemma quiet_load_zenodo_metadata:
  "emits_only {e. \<not> is_request e} (load_zenodo_metadata w p)"
  unfolding load_zenodo_metadata_def
  by (cases "metadata_state w") (auto intro: quiet_intros)

lemma quiet_init_uploader: "emits_only {e. \<not> is_request e} (init_uploader tok sb)"
  unfolding init_uploader_def by (intro quiet_intros)

lemma fail_stop_prepare: "fail_stop w (prepare a w tok)"
  unfolding prepare_def
  apply (rule fail_stop_bind, rule fail_stop_quiet, intro quiet_intros)
  apply (rule fail_stop_bind, rule fail_stop_quiet, rule quiet_load_zenodo_metadata)
  apply (rule fail_stop_bind, rule fail_stop_quiet, intro quiet_intros)
  apply (rule fail_stop_bind, rule fail_stop_quiet, rule quiet_init_uploader)
  apply (rule fail_stop_bind, rule fail_stop_collect_files)
  apply (rule fail_stop_quiet, intro quiet_intros)
  done

lemma fail_stop_deposit: "fail_stop w (deposit w self meta files)"
  unfolding deposit_def
  apply (rule fail_stop_bind, rule fail_stop_quiet, intro quiet_intros)
  apply (rule fail_stop_bind, rule fail_stop_create_deposition)
  apply (rule fail_stop_bind, rule fail_stop_quiet, intro quiet_intros)
  apply (rule fail_stop_bind, rule fail_stop_quiet, intro quiet_intros)
  apply (rule fail_stop_bind, rule fail_stop_upload_all)
  apply (rule fail_stop_quiet, intro quiet_intros)
  done

lemma quiet_save_info: "emits_only {e. \<not> is_request e} (save_info a w d p)"
  unfolding save_info_def by (intro quiet_intros)

lemma fail_stop_publish_and_save: "fail_stop w (publish_and_save a w self d)"
  unfolding publish_and_save_def
  apply (rule fail_stop_bind, rule fail_stop_quiet, intro quiet_intros)
  apply (rule fail_stop_bind, rule fail_stop_publish_deposition)
  apply (rule fail_stop_quiet, rule quiet_save_info)
  done

lemma fail_stop_main_try: "fail_stop w (main_try a w tok)"
  unfolding main_try_def
  apply (rule fail_stop_bind, rule fail_stop_prepare)
  apply (simp only: split_paired_all prod.case)
  apply (rule fail_stop_bind, rule fail_stop_deposit)
  apply (rule fail_stop_publish_and_save)
  done

subsection \<open>The three parts of the try block\<close>

lemma save_info_events: "emits_only (publish_events base) (save_info a w d p)"
  unfolding save_info_def
  by (intro emits_only_intros emits_only_get_key) (simp_all add: publish_events_def)

lemma publish_deposition_events:
  "emits_only (publish_events (base_url self)) (publish_deposition w self d)"
  unfolding publish_deposition_def
  by (intro emits_only_intros emits_only_ret emits_only_raise_for_status emits_only_json_of
      emits_only_get_key)
     (simp_all add: publish_events_def)

lemma publish_and_save_events:
  "emits_only (publish_events (base_url self)) (publish_and_save a w self d)"
  unfolding publish_and_save_def
  by (intro emits_only_intros publish_deposition_events save_info_events)
     (simp_all add: publish_events_def)

lemma after_prepare_events:
  "emits_only (deposit_events (base_url self) \<union> publish_events (base_url self))
     (after_prepare a w self meta files)"
  unfolding after_prepare_def
  by (rule emits_only_bind)
     (auto intro: emits_only_mono [OF deposit_emits] emits_only_mono [OF publish_and_save_events])

lemma main_try_cases:
  obtains (early) ab e1 where
      "prepare a w tok [] = (Inl ab, e1)" "main_try a w tok [] = (Inl ab, e1)"
  | (late) meta self files e1 where
      "prepare a w tok [] = (Inr (meta, self, files), e1)"
      "main_try a w tok [] = after_prepare a w self meta files e1"
proof (cases "prepare a w tok []")
  case (Pair r e1)
  show ?thesis
  proof (cases r)
    case (Inl ab)
    with Pair have "main_try a w tok [] = (Inl ab, e1)"
      by (simp add: main_try_def bind_def)
    with Pair Inl show ?thesis by (auto intro: early)
  next
    case (Inr x)
    obtain meta self files where x: "x = (meta, self, files)" by (cases x)
    with Pair Inr have "main_try a w tok [] = after_prepare a w self meta files e1"
      by (simp add: main_try_def after_prepare_def bind_def)
    with Pair Inr x show ?thesis by (auto intro: late)
  qed
qed

lemma prepare_only_fetches:
  assumes "prepare a w tok [] = (r, e1)"
  shows "Request CreateDeposition u \<notin> set e1"
proof -
  from prepare_emits [of a w tok] assms have "set e1 \<subseteq> prepare_events"
    unfolding emits_only_def by (metis append_Nil snd_conv)
  then show ?thesis by (auto simp: prepare_events_def)
qed

lemma no_create_after_failed_fetch:
  assumes ev: "snd (main_try a w tok []) = pre @ Request c u # post"
    and fl: "fails (responses w (n_requests pre))"
    and c: "c = ReleaseLookup \<or> c = AssetDownload"
  shows "Request CreateDeposition u' \<notin> set (snd (main_try a w tok []))"
proof (cases rule: main_try_cases [of a w tok])
  case (early ab e1)
  then show ?thesis using prepare_only_fetches by simp
next
  case (late meta self files e1)
  from after_prepare_events [of self a w meta files] obtain e2
    where e2: "snd (after_prepare a w self meta files e1) = e1 @ e2"
      and s2: "set e2 \<subseteq> deposit_events (base_url self) \<union> publish_events (base_url self)"
    unfolding emits_only_def by blast
  from fail_stop_prepare [of w a tok] late(1)
  have p1: "\<And>pre c u post. e1 = pre @ Request c u # post \<Longrightarrow>
               fails (responses w (n_requests pre)) \<Longrightarrow> False"
    unfolding fail_stop_def by (metis append_Nil fst_conv snd_conv sum.distinct(1))
  from ev late e2 have "e1 @ e2 = pre @ Request c u # post" by simp
  then consider us where "e1 = pre @ us" "us @ e2 = Request c u # post"
    | us where "e1 @ us = pre" "e2 = us @ Request c u # post"
    by (auto simp: append_eq_append_conv2)
  then have "Request c u \<in> set e2"
  proof cases
    case 1
    show ?thesis
    proof (cases us)
      case Nil
      with 1 show ?thesis by (metis append_Nil list.set_intros(1))
    next
      case (Cons y ys)
      with 1 have "e1 = pre @ Request c u # ys" by simp
      from p1 [OF this fl] show ?thesis ..
    qed
  next
    case 2
    then show ?thesis by simp
  qed
  with s2 c show ?thesis by (auto simp: deposit_events_def publish_events_def)
qed

lemma main_events_token:
  assumes "env_token w = Some tok" "tok \<noteq> []"
  shows "(\<exists>e. fst (main_try a w tok []) = Inl (Raised e)
            \<and> events (main a w) = snd (main_try a w tok []) @ [ErrorReport e]
            \<and> outcome (main a w) = Returned 1)
       \<or> ((\<forall>e. fst (main_try a w tok []) \<noteq> Inl (Raised e))
            \<and> events (main a w) = snd (main_try a w tok []))"
proof (cases "main_try a w tok []")
  case (Pair r tr)
  show ?thesis
  proof (cases r)
    case (Inr x)
    with Pair assms show ?thesis by (simp add: main_def)
  next
    case (Inl ab)
    with Pair assms show ?thesis by (cases ab) (simp_all add: main_def)
  qed
qed

lemma main_events_no_token:
  assumes "env_token w = None \<or> env_token w = Some []"
  shows "events (main a w) \<noteq> pre @ Request c u # post"
proof
  assume "events (main a w) = pre @ Request c u # post"
  then have "Request c u \<in> set (events (main a w))" by simp
  with assms show False by (auto simp: main_def no_token_def)
qed

text \<open>
  C3. When a remote call of a run is answered with a failure (no answer, or a status
  code from 400 to 599), that request is the last step of the pipeline: the only event
  after it is the report of the exception handler, and the exit status is 1. When the
  failed call is the release lookup or an asset download, \<open>create_deposition\<close> is not
  called in the run.
\<close>

theorem failure_aborts_pipeline:
  assumes "events (main a w) = pre @ Request c u # post"
    and "fails (responses w (n_requests pre))"
  shows "(\<exists>e. post = [ErrorReport e]) \<and> exit_status (main a w) = 1
    \<and> (c = ReleaseLookup \<or> c = AssetDownload \<longrightarrow>
         (\<forall>u'. Request CreateDeposition u' \<notin> set (events (main a w))))"
proof -
  from assms(1) main_events_no_token [of w a pre c u post]
  obtain tok where tok: "env_token w = Some tok" "tok \<noteq> []" by (cases "env_token w") auto
  from fail_stop_main_try [of w a tok]
  have fs: "\<And>pre c u post. snd (main_try a w tok []) = pre @ Request c u # post \<Longrightarrow>
               fails (responses w (n_requests pre)) \<Longrightarrow>
               post = [] \<and> (\<exists>e. fst (main_try a w tok []) = Inl (Raised e))"
    unfolding fail_stop_def by (metis append_Nil)
  from main_events_token [OF tok, of a]
  show ?thesis
  proof
    assume "\<exists>e. fst (main_try a w tok []) = Inl (Raised e)
            \<and> events (main a w) = snd (main_try a w tok []) @ [ErrorReport e]
            \<and> outcome (main a w) = Returned 1"
    then obtain e where e: "fst (main_try a w tok []) = Inl (Raised e)"
      "events (main a w) = snd (main_try a w tok []) @ [ErrorReport e]"
      "outcome (main a w) = Returned 1" by blast
    from e(2) assms(1) have d: "snd (main_try a w tok []) @ [ErrorReport e] = pre @ Request c u # post"
      by simp
    then have "post \<noteq> []" by (cases post rule: rev_cases) auto
    then obtain post' where post': "post = post' @ [ErrorReport e]"
      using d by (cases post rule: rev_cases) auto
    with d have tr: "snd (main_try a w tok []) = pre @ Request c u # post'" by simp
    from fs [OF tr assms(2)] have "post' = []" by simp
    with post' have 1: "post = [ErrorReport e]" by simp
    have 2: "exit_status (main a w) = 1" using e(3) by (simp add: exit_status_def)
    have 3: "Request CreateDeposition u' \<notin> set (events (main a w))"
      if "c = ReleaseLookup \<or> c = AssetDownload" for u'
      using no_create_after_failed_fetch [OF tr assms(2) that] e(2) by simp
    from 1 2 3 show ?thesis by blast
  next
    assume "(\<forall>e. fst (main_try a w tok []) \<noteq> Inl (Raised e))
            \<and> events (main a w) = snd (main_try a w tok [])"
    with assms(1) fs [of pre c u post] assms(2) show ?thesis by auto
  qed
qed

lemma bad_run_events:
  "events (main example_args bad_download_world) =
    [Print (check_mark @ '' Loaded metadata from .zenodo.json''),
     Print (check_mark @ '' Zenodo uploader initialized (sandbox)''),
     Print ([LF] @ ''Downloading release v1.0.0...''),
     Mkdir ''releases'',
     Request ReleaseLookup ''https://api.github.com/repos/owner/repo/releases/tags/v1.0.0'',
     Print ''Downloading a.zip...'',
     Request AssetDownload ''https://example.org/a.zip'',
     ErrorReport (HTTPError 404)]"
  by (simp add: main_defs prog_defs example_defs)

theorem failure_aborts_pipeline_witness:
  "events (main example_args bad_download_world) =
     take 6 (events (main example_args bad_download_world))
       @ Request AssetDownload ''https://example.org/a.zip''
       # drop 7 (events (main example_args bad_download_world))
   \<and> fails (responses bad_download_world
        (n_requests (take 6 (events (main example_args bad_download_world)))))
   \<and> length (drop 7 (events (main example_args bad_download_world))) = 1
   \<and> exit_status (main example_args bad_download_world) = 1
   \<and> Request CreateDeposition ''https://sandbox.zenodo.org/api/deposit/depositions''
        \<notin> set (events (main example_args bad_download_world))"
proof -
  let ?evs = "events (main example_args bad_download_world)"
  have d: "?evs = take 6 ?evs @ Request AssetDownload ''https://example.org/a.zip'' # drop 7 ?evs"
    by (simp add: bad_run_events)
  have n: "n_requests (take 6 ?evs) = 1"
    by (simp add: bad_run_events n_requests_def)
  have "fails (responses bad_download_world 1)"
    by (simp add: bad_download_world_def good_world_def not_found_def fails_def)
  with n have f: "fails (responses bad_download_world (n_requests (take 6 ?evs)))"
    by simp
  from failure_aborts_pipeline [OF d f]
  have r: "(\<exists>e. drop 7 ?evs = [ErrorReport e])"
    "exit_status (main example_args bad_download_world) = 1"
    "\<forall>u'. Request CreateDeposition u' \<notin> set ?evs"
    by blast+
  from r(1) obtain e where "drop 7 ?evs = [ErrorReport e]" ..
  then have "length (drop 7 ?evs) = length [ErrorReport e]" by (rule arg_cong)
  then have "length (drop 7 ?evs) = 1" by (simp del: length_drop)
  with d f r(2,3) show ?thesis by blast
qed

subsection \<open>After the publication\<close>

lemma split_at_unique:
  assumes "pre @ x # post = a @ y # q" and "P x"
    and "\<forall>e\<in>set a. \<not> P e" and "\<forall>e\<in>set q. \<not> P e"
  shows "pre = a \<and> post = q"
  using assms
proof (induction pre arbitrary: a)
  case Nil
  then show ?case by (cases a) auto
next
  case (Cons z zs)
  show ?case
  proof (cases a)
    case Nil
    with Cons.prems show ?thesis by auto
  next
    case (Cons b bs)
    with Cons.prems Cons.IH [of bs] show ?thesis by auto
  qed
qed

lemma quiet_event_local: "e \<in> quiet_events \<Longrightarrow> is_local e"
  by (cases e) (simp_all add: quiet_events_def)

lemma quiet_events_local: "set q \<subseteq> quiet_events \<Longrightarrow> list_all is_local q"
  by (auto simp: list_all_iff intro: quiet_event_local)

lemma local_not_request: "list_all is_local xs \<Longrightarrow> Request c u \<notin> set xs"
  by (induction xs) auto

lemma save_info_quiet: "emits_only quiet_events (save_info a w d p)"
  unfolding save_info_def
  by (intro emits_only_intros emits_only_get_key) (simp_all add: quiet_events_def)

lemma publish_and_save_shape:
  "\<exists>s0 u0 q. snd (publish_and_save a w self d tr)
                = tr @ Print s0 # Request PublishDeposition u0 # q
            \<and> set q \<subseteq> quiet_events"
proof -
  let ?s0 = "[LF] @ ''Publishing deposition...''"
  let ?u0 = "base_url self @ ''/deposit/depositions/'' @ d @ ''/actions/publish''"
  let ?t1 = "tr @ [Print ?s0, Request PublishDeposition ?u0]"
  let ?K = "\<lambda>response.
     bind (raise_for_status response) (\<lambda>_.
     bind (json_of response) (\<lambda>deposition.
     bind (get_key ''metadata'' (metadata deposition)) (\<lambda>md.
     bind (emit (Print (check_mark @ '' Published! DOI: ''
                        @ (case md of None \<Rightarrow> ''pending'' | Some d \<Rightarrow> d)))) (\<lambda>_.
     ret deposition))))"
  have k: "emits_only quiet_events (bind (?K r) (save_info a w d))" for r
    by (intro emits_only_intros emits_only_ret emits_only_raise_for_status emits_only_json_of
        emits_only_get_key save_info_quiet)
       (simp_all add: quiet_events_def)
  show ?thesis
  proof (cases "responses w (n_requests (tr @ [Print ?s0]))")
    case NoReply
    then have "snd (publish_and_save a w self d tr) = ?t1"
      by (simp add: publish_and_save_def publish_deposition_def bind_def emit_def request_def)
    then show ?thesis by auto
  next
    case (Reply r)
    then have "publish_and_save a w self d tr = bind (?K r) (save_info a w d) ?t1"
      by (simp add: publish_and_save_def publish_deposition_def bind_def emit_def request_def)
    moreover from k [of r] obtain q where "snd (bind (?K r) (save_info a w d) ?t1) = ?t1 @ q"
      "set q \<subseteq> quiet_events"
      unfolding emits_only_def by blast
    ultimately show ?thesis by auto
  qed
qed

lemma main_try_publish_shape:
  "(\<forall>u. Request PublishDeposition u \<notin> set (snd (main_try a w tok [])))
   \<or> (\<exists>A u0 q. snd (main_try a w tok []) = A @ Request PublishDeposition u0 # q
        \<and> (\<forall>u. Request PublishDeposition u \<notin> set A) \<and> set q \<subseteq> quiet_events)"
proof (cases rule: main_try_cases [of a w tok])
  case (early ab e1)
  from prepare_emits [of a w tok] early(1) have "set e1 \<subseteq> prepare_events"
    unfolding emits_only_def by (metis append_Nil snd_conv)
  then have "\<forall>u. Request PublishDeposition u \<notin> set e1"
    by (auto simp: prepare_events_def)
  with early(2) show ?thesis by simp
next
  case (late meta self files e1)
  from prepare_emits [of a w tok] late(1) have "set e1 \<subseteq> prepare_events"
    unfolding emits_only_def by (metis append_Nil snd_conv)
  then have n1: "\<forall>u. Request PublishDeposition u \<notin> set e1"
    by (auto simp: prepare_events_def)
  from deposit_emits [of self w meta files] obtain e2
    where e2: "snd (deposit w self meta files e1) = e1 @ e2"
      "set e2 \<subseteq> deposit_events (base_url self)"
    unfolding emits_only_def by blast
  then have n2: "\<forall>u. Request PublishDeposition u \<notin> set e2"
    by (auto simp: deposit_events_def)
  show ?thesis
  proof (cases "fst (deposit w self meta files e1)")
    case (Inl ab)
    with e2 have "snd (main_try a w tok []) = e1 @ e2"
      unfolding late(2) after_prepare_def
      by (cases "deposit w self meta files e1") (simp add: bind_def)
    with n1 n2 show ?thesis by simp
  next
    case (Inr d)
    with e2 have m: "main_try a w tok [] = publish_and_save a w self d (e1 @ e2)"
      unfolding late(2) after_prepare_def
      by (cases "deposit w self meta files e1") (simp add: bind_def)
    from publish_and_save_shape [of a w self d "e1 @ e2"] obtain s0 u0 q
      where "snd (publish_and_save a w self d (e1 @ e2))
               = (e1 @ e2) @ Print s0 # Request PublishDeposition u0 # q"
        "set q \<subseteq> quiet_events" by blast
    with m have "snd (main_try a w tok []) = (e1 @ e2 @ [Print s0]) @ Request PublishDeposition u0 # q"
      by simp
    moreover have "\<forall>u. Request PublishDeposition u \<notin> set (e1 @ e2 @ [Print s0])"
      using n1 n2 by simp
    ultimately show ?thesis using \<open>set q \<subseteq> quiet_events\<close> by blast
  qed
qed

text \<open>
  C8. In every run, each event after the publish request is local: a line printed, the
  summary file written, or the report of the exception handler. No remote request
  follows the publication.
\<close>

theorem published_then_local_only:
  assumes "events (main a w) = pre @ Request PublishDeposition u # post"
  shows "list_all is_local post \<and> filter is_request post = []"
proof -
  from assms main_events_no_token [of w a pre PublishDeposition u post]
  obtain tok where tok: "env_token w = Some tok" "tok \<noteq> []" by (cases "env_token w") auto
  from main_events_token [OF tok, of a] obtain sfx
    where ev: "events (main a w) = snd (main_try a w tok []) @ sfx"
      and sfx: "list_all is_local sfx"
    by (metis append_Nil2 is_local.simps(3) list.pred_inject)
  let ?P = "\<lambda>e. \<exists>u. e = Request PublishDeposition u"
  from main_try_publish_shape [of a w tok]
  have "list_all is_local post"
  proof
    assume "\<forall>u. Request PublishDeposition u \<notin> set (snd (main_try a w tok []))"
    moreover from sfx have "\<forall>u. Request PublishDeposition u \<notin> set sfx"
      using local_not_request [of sfx PublishDeposition] by blast
    moreover from assms have "Request PublishDeposition u \<in> set (events (main a w))" by simp
    ultimately show ?thesis using ev by auto
  next
    assume "\<exists>A u0 q. snd (main_try a w tok []) = A @ Request PublishDeposition u0 # q
        \<and> (\<forall>u. Request PublishDeposition u \<notin> set A) \<and> set q \<subseteq> quiet_events"
    then obtain A u0 q where s: "snd (main_try a w tok []) = A @ Request PublishDeposition u0 # q"
      "\<forall>u. Request PublishDeposition u \<notin> set A" "set q \<subseteq> quiet_events" by blast
    from s(3) have lq: "list_all is_local q" by (rule quiet_events_local)
    with sfx have l: "list_all is_local (q @ sfx)" by simp
    from assms ev s(1)
    have "pre @ Request PublishDeposition u # post = A @ Request PublishDeposition u0 # (q @ sfx)"
      by simp
    moreover have "?P (Request PublishDeposition u)" by simp
    moreover from s(2) have "\<forall>e\<in>set A. \<not> ?P e" by auto
    moreover from l have "\<forall>e\<in>set (q @ sfx). \<not> ?P e"
      using local_not_request [of "q @ sfx" PublishDeposition] by blast
    ultimately have "post = q @ sfx" using split_at_unique [of pre _ post A _ "q @ sfx" ?P]
      by blast
    with l show ?thesis by simp
  qed
  moreover have "filter is_request xs = []" if "list_all is_local xs" for xs
    using that by (induction xs) (auto elim: is_local.elims)
  ultimately show ?thesis by blast
qed

lemma good_run_publish_at:
  "events (main example_args good_world) ! 16 =
     Request PublishDeposition
       ''https://sandbox.zenodo.org/api/deposit/depositions/42/actions/publish''
   \<and> length (events (main example_args good_world)) = 27"
  by (simp add: main_defs prog_defs example_defs ZENODO_SANDBOX_def)

theorem published_then_local_only_witness:
  "events (main example_args good_world) =
     take 16 (events (main example_args good_world))
       @ Request PublishDeposition
           ''https://sandbox.zenodo.org/api/deposit/depositions/42/actions/publish''
       # drop 17 (events (main example_args good_world))
   \<and> list_all is_local (drop 17 (events (main example_args good_world)))
   \<and> filter is_request (drop 17 (events (main example_args good_world))) = []"
proof -
  let ?evs = "events (main example_args good_world)"
  from good_run_publish_at have "16 < length ?evs" by simp
  from id_take_nth_drop [OF this] good_run_publish_at
  have d: "?evs = take 16 ?evs
       @ Request PublishDeposition
           ''https://sandbox.zenodo.org/api/deposit/depositions/42/actions/publish''
       # drop 17 ?evs"
    by simp
  from published_then_local_only [OF d] d show ?thesis by blast
qed

subsection \<open>The record URL\<close>

lemma save_info_success:
  assumes "fst (save_info a w d p tr) = Inr u"
  shows "\<exists>info. WriteSummary info \<in> set (snd (save_info a w d p tr))
           \<and> info_url info = record_url (info_record_id info)
           \<and> Print (''URL: '' @ record_url (info_record_id info))
                \<in> set (snd (save_info a w d p tr))"
proof -
  from assms obtain doi rid where k: "metadata p = Some doi" "record_id p = Some rid"
    by (cases "metadata p"; cases "record_id p")
       (simp_all add: save_info_def bind_def get_key_def raise_def ret_def)
  let ?info = "\<lparr>info_timestamp = now_iso w, info_deposition_id = d,
              info_record_id = rid, info_doi = doi, info_url = record_url rid,
              info_tag = tag a\<rparr>"
  from k have "WriteSummary ?info \<in> set (snd (save_info a w d p tr))"
    and "Print (''URL: '' @ record_url rid) \<in> set (snd (save_info a w d p tr))"
    by (simp_all add: save_info_def bind_def get_key_def ret_def emit_def)
  then show ?thesis by (intro exI [of _ ?info]) simp
qed

lemma bind_returns:
  assumes "fst (bind m f tr) = Inr y"
  obtains x where "fst (m tr) = Inr x" "bind m f tr = f x (snd (m tr))"
proof (cases "m tr")
  case (Pair r t)
  show ?thesis
  proof (cases r)
    case (Inl ab)
    with Pair assms show ?thesis by (simp add: bind_def)
  next
    case (Inr x)
    with Pair show ?thesis by (intro that [of x]) (simp_all add: bind_def)
  qed
qed


lemma returns_ret: "R x \<Longrightarrow> returns R (ret x)"
  by (simp add: returns_def ret_def)

lemma returns_bind:
  assumes "\<And>x. returns R (f x)"
  shows "returns R (bind m f)"
  unfolding returns_def
proof (intro allI impI)
  fix tr y
  assume "fst (bind m f tr) = Inr y"
  then obtain x where "bind m f tr = f x (snd (m tr))" by (rule bind_returns)
  with \<open>fst (bind m f tr) = Inr y\<close> assms [of x] show "R y"
    unfolding returns_def by metis
qed

lemma returns_bind_value:
  assumes "returns P m" and "\<And>x. P x \<Longrightarrow> returns R (f x)"
  shows "returns R (bind m f)"
  unfolding returns_def
proof (intro allI impI)
  fix tr y
  assume a: "fst (bind m f tr) = Inr y"
  then obtain x where x: "fst (m tr) = Inr x" "bind m f tr = f x (snd (m tr))"
    by (rule bind_returns)
  from assms(1) x(1) have "P x" unfolding returns_def by blast
  from assms(2) [OF this] a x(2) show "R y" unfolding returns_def by metis
qed

lemma init_uploader_base_url:
  "returns (\<lambda>self. base_url self = (if use_sandbox then ZENODO_SANDBOX else ZENODO_PROD))
     (init_uploader tok use_sandbox)"
  unfolding init_uploader_def
  by (rule returns_bind, rule returns_ret) simp

lemma prepare_base_url:
  "returns (\<lambda>(meta, self, files).
              base_url self = (if sandbox a then ZENODO_SANDBOX else ZENODO_PROD))
     (prepare a w tok)"
  unfolding prepare_def
  apply (rule returns_bind)
  apply (rule returns_bind)
  apply (rule returns_bind)
  apply (rule returns_bind_value [OF init_uploader_base_url])
  apply (rule returns_bind)
  apply (rule returns_bind)
  apply (rule returns_ret)
  apply simp
  done


lemma main_try_success:
  assumes "fst (main_try a w tok []) = Inr u"
  shows "\<exists>d p tr. fst (save_info a w d p tr) = Inr u
           \<and> snd (main_try a w tok []) = snd (save_info a w d p tr)"
proof (cases rule: main_try_cases [of a w tok])
  case (early ab e1)
  with assms show ?thesis by simp
next
  case (late meta self files e1)
  with assms have "fst (bind (deposit w self meta files) (\<lambda>d. publish_and_save a w self d) e1)
                     = Inr u"
    by (simp add: after_prepare_def)
  then obtain d where d: "bind (deposit w self meta files) (\<lambda>d. publish_and_save a w self d) e1
      = publish_and_save a w self d (snd (deposit w self meta files e1))"
    by (rule bind_returns)
  let ?t2 = "snd (deposit w self meta files e1)"
  from d late(2) have m2: "main_try a w tok [] = publish_and_save a w self d ?t2"
    by (simp add: after_prepare_def)
  let ?pub = "bind (publish_deposition w self d) (\<lambda>published. save_info a w d published)"
  let ?t3 = "snd (emit (Print ([LF] @ ''Publishing deposition...'')) ?t2)"
  have m3: "publish_and_save a w self d ?t2 = ?pub ?t3"
    by (simp add: publish_and_save_def bind_def emit_def)
  with m2 assms have "fst (?pub ?t3) = Inr u" by simp
  then obtain p where p: "?pub ?t3 = save_info a w d p (snd (publish_deposition w self d ?t3))"
    by (rule bind_returns)
  from m2 m3 p have "main_try a w tok [] = save_info a w d p (snd (publish_deposition w self d ?t3))"
    by simp
  with assms show ?thesis by (intro exI) auto
qed

lemma main_try_request_urls:
  assumes "Request c u \<in> set (snd (main_try a w tok []))"
    and "c = CreateDeposition \<or> c = UploadFile \<or> c = PublishDeposition"
  shows "prefix (if sandbox a then ZENODO_SANDBOX else ZENODO_PROD) u"
proof (cases rule: main_try_cases [of a w tok])
  case (early ab e1)
  from prepare_emits [of a w tok] early(1) have "set e1 \<subseteq> prepare_events"
    unfolding emits_only_def by (metis append_Nil snd_conv)
  with assms early(2) show ?thesis by (auto simp: prepare_events_def)
next
  case (late meta self files e1)
  from prepare_emits [of a w tok] late(1) have s1: "set e1 \<subseteq> prepare_events"
    unfolding emits_only_def by (metis append_Nil snd_conv)
  from prepare_base_url [of a w tok] late(1)
  have b: "base_url self = (if sandbox a then ZENODO_SANDBOX else ZENODO_PROD)"
    unfolding returns_def by (metis (mono_tags, lifting) case_prod_conv fst_conv)
  from after_prepare_events [of self a w meta files] obtain e2
    where e2: "snd (after_prepare a w self meta files e1) = e1 @ e2"
      and s2: "set e2 \<subseteq> deposit_events (base_url self) \<union> publish_events (base_url self)"
    unfolding emits_only_def by blast
  from assms(1) late(2) e2 have "Request c u \<in> set e1 \<or> Request c u \<in> set e2" by simp
  then show ?thesis
  proof
    assume "Request c u \<in> set e1"
    with s1 assms(2) show ?thesis by (auto simp: prepare_events_def)
  next
    assume "Request c u \<in> set e2"
    with s2 have "prefix (base_url self) u"
      by (auto simp: deposit_events_def publish_events_def)
    with b show ?thesis by simp
  qed
qed

lemma main_try_summaries:
  assumes "WriteSummary info \<in> set (snd (main_try a w tok []))"
  shows "info_url info = record_url (info_record_id info)"
proof (cases rule: main_try_cases [of a w tok])
  case (early ab e1)
  from prepare_emits [of a w tok] early(1) have "set e1 \<subseteq> prepare_events"
    unfolding emits_only_def by (metis append_Nil snd_conv)
  with assms early(2) show ?thesis by (auto simp: prepare_events_def)
next
  case (late meta self files e1)
  from prepare_emits [of a w tok] late(1) have s1: "set e1 \<subseteq> prepare_events"
    unfolding emits_only_def by (metis append_Nil snd_conv)
  from after_prepare_events [of self a w meta files] obtain e2
    where e2: "snd (after_prepare a w self meta files e1) = e1 @ e2"
      and s2: "set e2 \<subseteq> deposit_events (base_url self) \<union> publish_events (base_url self)"
    unfolding emits_only_def by blast
  from assms late(2) e2 have "WriteSummary info \<in> set e1 \<or> WriteSummary info \<in> set e2"
    by simp
  then show ?thesis
  proof
    assume "WriteSummary info \<in> set e1"
    with s1 show ?thesis by (auto simp: prepare_events_def)
  next
    assume "WriteSummary info \<in> set e2"
    with s2 show ?thesis by (auto simp: deposit_events_def publish_events_def)
  qed
qed

lemma main_status_zero:
  assumes "exit_status (main a w) = 0"
  obtains tok where "env_token w = Some tok" "tok \<noteq> []"
    "fst (main_try a w tok []) = Inr ()" "events (main a w) = snd (main_try a w tok [])"
proof (cases "env_token w = None \<or> env_token w = Some []")
  case True
  with assms show ?thesis by (auto simp: main_def no_token_def exit_status_def)
next
  case False
  then obtain tok where tok: "env_token w = Some tok" "tok \<noteq> []" by auto
  show ?thesis
  proof (cases "main_try a w tok []")
    case (Pair r tr)
    show ?thesis
    proof (cases r)
      case (Inr x)
      with Pair tok show ?thesis by (intro that [of tok]) (simp_all add: main_def)
    next
      case (Inl ab)
      show ?thesis
      proof (cases ab)
        case (Raised e)
        with Inl Pair tok assms show ?thesis by (simp add: main_def exit_status_def)
      next
        case (SysExit n)
        with Inl Pair have "fst (main_try a w tok []) = Inl (SysExit n)" by simp
        with exits_one_main_try [of a w tok] have "n = 1" unfolding exits_one_def by blast
        with SysExit Inl Pair tok assms show ?thesis by (simp add: main_def exit_status_def)
      qed
    qed
  qed
qed

text \<open>
  C10. A run that ends with status 0 writes a summary whose \<open>url\<close> field is
  \<open>https://zenodo.org/record/\<close> followed by the record id, and prints that URL; every
  summary written has such a \<open>url\<close>. This does not depend on \<open>--sandbox\<close>, although
  the requests that create the deposition, upload the files and publish go to the
  sandbox base URL when \<open>--sandbox\<close> is set (and to the production base URL otherwise).
\<close>

theorem record_url_production_host:
  "(exit_status (main a w) = 0 \<longrightarrow>
      (\<exists>info. WriteSummary info \<in> set (events (main a w))
         \<and> info_url info = ''https://zenodo.org/record/'' @ info_record_id info
         \<and> Print (''URL: https://zenodo.org/record/'' @ info_record_id info)
              \<in> set (events (main a w))))
   \<and> (\<forall>info. WriteSummary info \<in> set (events (main a w)) \<longrightarrow>
         info_url info = ''https://zenodo.org/record/'' @ info_record_id info)
   \<and> (\<forall>c u. Request c u \<in> set (events (main a w))
         \<and> (c = CreateDeposition \<or> c = UploadFile \<or> c = PublishDeposition)
        \<longrightarrow> prefix (if sandbox a then ZENODO_SANDBOX else ZENODO_PROD) u)"
proof (intro conjI allI impI)
  assume "exit_status (main a w) = 0"
  then obtain tok where tok: "fst (main_try a w tok []) = Inr ()"
    "events (main a w) = snd (main_try a w tok [])"
    by (rule main_status_zero)
  from main_try_success [OF tok(1)] obtain d p tr
    where s: "fst (save_info a w d p tr) = Inr ()"
      "snd (main_try a w tok []) = snd (save_info a w d p tr)" by blast
  from save_info_success [OF s(1)] s(2) tok(2)
  show "\<exists>info. WriteSummary info \<in> set (events (main a w))
         \<and> info_url info = ''https://zenodo.org/record/'' @ info_record_id info
         \<and> Print (''URL: https://zenodo.org/record/'' @ info_record_id info)
              \<in> set (events (main a w))"
    by (auto simp: record_url_def)
next
  fix info
  assume i: "WriteSummary info \<in> set (events (main a w))"
  show "info_url info = ''https://zenodo.org/record/'' @ info_record_id info"
  proof (cases "env_token w = None \<or> env_token w = Some []")
    case True
    with i show ?thesis by (auto simp: main_def no_token_def)
  next
    case False
    then obtain tok where tok: "env_token w = Some tok" "tok \<noteq> []" by auto
    from main_events_token [OF tok, of a] i
    have "WriteSummary info \<in> set (snd (main_try a w tok []))" by auto
    from main_try_summaries [OF this] show ?thesis by (simp add: record_url_def)
  qed
next
  fix c u
  assume r: "Request c u \<in> set (events (main a w))
         \<and> (c = CreateDeposition \<or> c = UploadFile \<or> c = PublishDeposition)"
  show "prefix (if sandbox a then ZENODO_SANDBOX else ZENODO_PROD) u"
  proof (cases "env_token w = None \<or> env_token w = Some []")
    case True
    with r show ?thesis by (auto simp: main_def no_token_def)
  next
    case False
    then obtain tok where tok: "env_token w = Some tok" "tok \<noteq> []" by auto
    from main_events_token [OF tok, of a] r
    have "Request c u \<in> set (snd (main_try a w tok []))" by auto
    with r show ?thesis using main_try_request_urls [of c u a w tok] by blast
  qed
qed

lemma good_run_status: "exit_status (main example_args good_world) = 0"
  using good_run_try by (auto intro: main_status_returned simp: good_world_def)

theorem record_url_production_host_witness:
  "exit_status (main example_args good_world) = 0
   \<and> sandbox example_args
   \<and> Request PublishDeposition
        ''https://sandbox.zenodo.org/api/deposit/depositions/42/actions/publish''
       \<in> set (events (main example_args good_world))
   \<and> prefix ZENODO_SANDBOX
        ''https://sandbox.zenodo.org/api/deposit/depositions/42/actions/publish''
   \<and> (\<exists>info. WriteSummary info \<in> set (events (main example_args good_world))
         \<and> info_url info = ''https://zenodo.org/record/'' @ info_record_id info
         \<and> Print (''URL: https://zenodo.org/record/'' @ info_record_id info)
              \<in> set (events (main example_args good_world)))"
proof -
  let ?evs = "events (main example_args good_world)"
  let ?u = "''https://sandbox.zenodo.org/api/deposit/depositions/42/actions/publish''"
  have sb: "sandbox example_args" by (simp add: example_args_def)
  from good_run_publish_at have "16 < length ?evs" "?evs ! 16 = Request PublishDeposition ?u"
    by simp_all
  then have m: "Request PublishDeposition ?u \<in> set ?evs" by (metis nth_mem)
  from record_url_production_host [of example_args good_world] good_run_status m sb
  have "\<exists>info. WriteSummary info \<in> set ?evs
         \<and> info_url info = ''https://zenodo.org/record/'' @ info_record_id info
         \<and> Print (''URL: https://zenodo.org/record/'' @ info_record_id info) \<in> set ?evs"
    and "prefix ZENODO_SANDBOX ?u"
    by auto
  with good_run_status sb m show ?thesis by blast
qed

end
